theory Spec2Isabelle
  imports Main "HOL-Library.Char_ord" "HOL-Library.List_Lexorder" "HOL-Library.Product_Lexorder"
    "HOL-Library.Multiset"
begin

section \<open>Data model\<close>

text \<open>
  The engine of \<^verbatim>\<open>helpers/dfc_algo.py\<close> works on three pandas tables. A table is
  modelled as the list of its rows, in row order. Row labels are the positions: the tables
  come from \<^verbatim>\<open>pd.read_csv\<close> and carry a unique index, so \<^verbatim>\<open>.at[idx, col]\<close>
  addresses exactly the row that \<^verbatim>\<open>iterrows\<close> has just produced.

  A pandas \<^verbatim>\<open>Timestamp\<close> is modelled by the number of days since 1970-01-01; only
  the order of dates is ever used.

  The quantity and demand columns are \<^verbatim>\<open>int64\<close> columns. A cell read through
  \<^verbatim>\<open>iterrows\<close> is a Python integer, and the arithmetic of the inner loop is Python's,
  without bound. \<^verbatim>\<open>Series.sum()\<close> adds in \<^verbatim>\<open>int64\<close> and wraps around.
\<close>

type_synonym timestamp = int

record forecast_record =
  forcast_product_id :: string
  forcast_date :: timestamp
  forcast_forecasted_sales :: int

record inventory_batch =
  inventory_product_id :: string
  inventory_batch_id :: string
  inventory_inventory :: int
  inventory_expiry_date :: timestamp

text \<open>
  A row of the coverage table. The column \<^verbatim>\<open>has_forecast\<close> is set only by the two
  early branches of \<^verbatim>\<open>calculate_dfc\<close>; \<open>None\<close> is the missing cell of the third.
\<close>

record coverage_result =
  coverage_product_id :: string
  coverage_days_forward_coverage :: nat
  coverage_total_inventory :: int
  has_forecast :: "bool option"

record over_time_row =
  date :: timestamp
  days_forward_coverage :: nat
  total_inventory :: int

section \<open>pandas primitives\<close>

text \<open>
  \<^verbatim>\<open>Series.min()\<close> of a datetime column: \<open>None\<close> stands for \<^verbatim>\<open>NaT\<close>, the
  minimum of an empty column.
\<close>

fun series_min :: "timestamp list \<Rightarrow> timestamp option" where
  "series_min [] = None"
| "series_min (d # ds) = Some (fold min ds d)"

text \<open>
  \<^verbatim>\<open>column >= current_date\<close>, row by row. Every comparison with \<^verbatim>\<open>NaT\<close> is
  false.
\<close>

definition ge_timestamp :: "timestamp \<Rightarrow> timestamp option \<Rightarrow> bool" where
  "ge_timestamp d current_date = (case current_date of None \<Rightarrow> False | Some c \<Rightarrow> c \<le> d)"

text \<open>
  \<^verbatim>\<open>Series.unique()\<close>: the distinct values in order of first appearance, found with a
  table of the values seen so far.
\<close>

fun unique_acc :: "'a list \<Rightarrow> 'a list \<Rightarrow> 'a list" where
  "unique_acc seen [] = []"
| "unique_acc seen (x # xs) =
     (if x \<in> set seen then unique_acc seen xs else x # unique_acc (x # seen) xs)"

definition unique :: "'a list \<Rightarrow> 'a list" where
  "unique xs = unique_acc [] xs"

text \<open>
  \<^verbatim>\<open>Series.sum()\<close> of an \<^verbatim>\<open>int64\<close> column: the sum modulo \<open>2 ^ 64\<close>, read as a
  signed 64-bit integer. The sum of a column without rows is 0.
\<close>

definition wrap_int64 :: "int \<Rightarrow> int" where
  "wrap_int64 x = (x + 2 ^ 63) mod 2 ^ 64 - 2 ^ 63"

definition series_sum :: "int list \<Rightarrow> int" where
  "series_sum xs = wrap_int64 (sum_list xs)"

text \<open>
  \<^verbatim>\<open>sort_values(col)\<close> on one column sorts with numpy's quicksort, which is not
  stable: the order it gives to rows with equal keys depends on the number of rows and on
  the platform. The sort is therefore a parameter of the model, one function for each of
  the two calls of the source: \<^verbatim>\<open>sort_values(FORCAST_DATE)\<close> on a forecast table and
  \<^verbatim>\<open>sort_values(INVENTORY_EXPIRY_DATE)\<close> on an inventory table.
\<close>

record sort_values =
  by_forcast_date :: "forecast_record list \<Rightarrow> forecast_record list"
  by_inventory_expiry_date :: "inventory_batch list \<Rightarrow> inventory_batch list"

text \<open>
  What is known of the sort: the result has the rows of the table, each as often as the
  table has it, in ascending order of the column.
\<close>

definition sorts :: "sort_values \<Rightarrow> bool" where
  "sorts sv =
     ((\<forall>xs. mset (by_forcast_date sv xs) = mset xs \<and>
            sorted (map forcast_date (by_forcast_date sv xs))) \<and>
      (\<forall>ys. mset (by_inventory_expiry_date sv ys) = mset ys \<and>
            sorted (map inventory_expiry_date (by_inventory_expiry_date sv ys))))"

text \<open>One such sort, the stable one; it is what the closed examples below run with.\<close>

definition stable_sort_values :: sort_values where
  "stable_sort_values =
     \<lparr>by_forcast_date = sort_key forcast_date,
      by_inventory_expiry_date = sort_key inventory_expiry_date\<rparr>"

section \<open>The per-product simulation: \<^verbatim>\<open>_calculate_days_covered\<close>\<close>

text \<open>
  The inner loop (FIFO consumption) over the rows of \<^verbatim>\<open>product_inventory\<close>, with
  the running \<^verbatim>\<open>demand_to_fulfill\<close>. The first branch ends with \<^verbatim>\<open>break\<close>, so the
  remaining rows are left as they are.
\<close>

fun fifo_consumption :: "int \<Rightarrow> inventory_batch list \<Rightarrow> inventory_batch list" where
  "fifo_consumption demand_to_fulfill [] = []"
| "fifo_consumption demand_to_fulfill (inv_row # rest) =
     (let batch_quantity = inventory_inventory inv_row in
      if batch_quantity \<ge> demand_to_fulfill
      then inv_row\<lparr>inventory_inventory := batch_quantity - demand_to_fulfill\<rparr> # rest
      else inv_row\<lparr>inventory_inventory := 0\<rparr>
             # fifo_consumption (demand_to_fulfill - batch_quantity) rest)"

text \<open>The variables the outer loop updates.\<close>

record sim_state =
  st_days_covered :: nat
  st_remaining_inventory :: int
  st_product_inventory :: "inventory_batch list"

text \<open>
  One iteration of the outer loop over the forecast rows. The flag is \<open>False\<close> when the
  iteration ends with \<^verbatim>\<open>break\<close>.
\<close>

definition forecast_step :: "forecast_record \<Rightarrow> sim_state \<Rightarrow> bool \<times> sim_state" where
  "forecast_step forecast_row st =
     (let forecast_date = forcast_date forecast_row;
          daily_demand = forcast_forecasted_sales forecast_row;
          batches = filter (\<lambda>b. inventory_expiry_date b \<ge> forecast_date)
                      (st_product_inventory st);
          remaining = (if batches = [] then 0 else series_sum (map inventory_inventory batches))
      in if remaining \<ge> daily_demand
         then (True, \<lparr>st_days_covered = st_days_covered st + 1,
                      st_remaining_inventory = remaining,
                      st_product_inventory = fifo_consumption daily_demand batches\<rparr>)
         else (False, \<lparr>st_days_covered = st_days_covered st,
                       st_remaining_inventory = remaining,
                       st_product_inventory = batches\<rparr>))"

fun forecast_loop :: "forecast_record list \<Rightarrow> sim_state \<Rightarrow> sim_state" where
  "forecast_loop [] st = st"
| "forecast_loop (forecast_row # rest) st =
     (let (continue, st') = forecast_step forecast_row st
      in if continue then forecast_loop rest st' else st')"

text \<open>
  The two tables of one product as the loop receives them: restricted to the rows on or
  after \<^verbatim>\<open>start_date\<close> when one is given, then sorted, the inventory by expiry date
  and the forecast by date.
\<close>

definition sorted_inventory ::
  "sort_values \<Rightarrow> inventory_batch list \<Rightarrow> timestamp option \<Rightarrow> inventory_batch list" where
  "sorted_inventory sv product_inventory start_date =
     by_inventory_expiry_date sv
       (case start_date of None \<Rightarrow> product_inventory
        | Some s \<Rightarrow> filter (\<lambda>b. inventory_expiry_date b \<ge> s) product_inventory)"

definition sorted_forecast ::
  "sort_values \<Rightarrow> forecast_record list \<Rightarrow> timestamp option \<Rightarrow> forecast_record list" where
  "sorted_forecast sv product_forecast start_date =
     by_forcast_date sv
       (case start_date of None \<Rightarrow> product_forecast
        | Some s \<Rightarrow> filter (\<lambda>r. forcast_date r \<ge> s) product_forecast)"

text \<open>The state in which the loop over the forecast rows starts.\<close>

definition initial_state :: "inventory_batch list \<Rightarrow> sim_state" where
  "initial_state batches =
     \<lparr>st_days_covered = 0,
      st_remaining_inventory = series_sum (map inventory_inventory batches),
      st_product_inventory = batches\<rparr>"

definition calculate_days_covered ::
  "sort_values \<Rightarrow> forecast_record list \<Rightarrow> inventory_batch list \<Rightarrow> timestamp option
     \<Rightarrow> nat \<times> int" where
  "calculate_days_covered sv product_forecast product_inventory start_date =
     (let batches = sorted_inventory sv product_inventory start_date;
          forecast = sorted_forecast sv product_forecast start_date;
          total_inventory = series_sum (map inventory_inventory batches)
      in if batches = [] \<or> forecast = [] then (0, total_inventory)
         else (st_days_covered (forecast_loop forecast (initial_state batches)),
               total_inventory))"

section \<open>The coverage table: \<^verbatim>\<open>calculate_dfc\<close>\<close>

text \<open>
  The reference date: the caller's, or else the minimum of the forecast's date column,
  which is \<^verbatim>\<open>NaT\<close> for a forecast without rows.
\<close>

definition resolve_current_date ::
  "forecast_record list \<Rightarrow> timestamp option \<Rightarrow> timestamp option" where
  "resolve_current_date forecast_df current_date =
     (case current_date of None \<Rightarrow> series_min (map forcast_date forecast_df)
      | Some c \<Rightarrow> Some c)"

definition valid_inventory :: "inventory_batch list \<Rightarrow> timestamp option \<Rightarrow> inventory_batch list" where
  "valid_inventory inventory_df current_date =
     filter (\<lambda>b. ge_timestamp (inventory_expiry_date b) current_date) inventory_df"

text \<open>
  \<^verbatim>\<open>sort_values\<close> on the two columns product id and date goes through numpy's
  \<^verbatim>\<open>lexsort\<close>, which is stable: it is the stable sort on the pair of keys.
\<close>

definition future_forecast :: "forecast_record list \<Rightarrow> timestamp option \<Rightarrow> forecast_record list" where
  "future_forecast forecast_df current_date =
     sort_key (\<lambda>r. (forcast_product_id r, forcast_date r))
       (filter (\<lambda>r. ge_timestamp (forcast_date r) current_date) forecast_df)"

text \<open>
  The union of the two sets of product ids. Python does not fix the order in which a set
  is iterated; the model lists the products in order of first appearance, and no theorem
  below depends on that order.
\<close>

definition all_products :: "forecast_record list \<Rightarrow> inventory_batch list \<Rightarrow> string list" where
  "all_products future valid =
     unique (unique (map forcast_product_id future) @ unique (map inventory_product_id valid))"

text \<open>The body of the loop over the products.\<close>

definition product_result ::
  "sort_values \<Rightarrow> forecast_record list \<Rightarrow> inventory_batch list \<Rightarrow> string \<Rightarrow> coverage_result"
  where
  "product_result sv future valid product_id =
     (let product_forecast = filter (\<lambda>r. forcast_product_id r = product_id) future in
      if product_forecast = []
      then \<lparr>coverage_product_id = product_id, coverage_days_forward_coverage = 0,
            coverage_total_inventory = 0, has_forecast = Some False\<rparr>
      else
        let product_inventory = filter (\<lambda>b. inventory_product_id b = product_id) valid in
        if product_inventory = []
        then \<lparr>coverage_product_id = product_id, coverage_days_forward_coverage = 0,
              coverage_total_inventory = 0, has_forecast = Some True\<rparr>
        else
          let (days_covered, total_inventory) =
                calculate_days_covered sv product_forecast product_inventory None
          in \<lparr>coverage_product_id = product_id, coverage_days_forward_coverage = days_covered,
              coverage_total_inventory = total_inventory, has_forecast = None\<rparr>)"

definition calculate_dfc ::
  "sort_values \<Rightarrow> forecast_record list \<Rightarrow> inventory_batch list \<Rightarrow> timestamp option
     \<Rightarrow> coverage_result list" where
  "calculate_dfc sv forecast_df inventory_df current_date =
     (let current_date' = resolve_current_date forecast_df current_date;
          valid = valid_inventory inventory_df current_date';
          future = future_forecast forecast_df current_date'
      in map (product_result sv future valid) (all_products future valid))"

section \<open>The time series: \<^verbatim>\<open>calculate_dfc_over_time\<close>\<close>

definition calculate_dfc_over_time ::
  "sort_values \<Rightarrow> forecast_record list \<Rightarrow> inventory_batch list \<Rightarrow> string \<Rightarrow> over_time_row list"
  where
  "calculate_dfc_over_time sv forecast_df inventory_df product_id =
     (let product_forecast = filter (\<lambda>r. forcast_product_id r = product_id) forecast_df;
          product_inventory = filter (\<lambda>b. inventory_product_id b = product_id) inventory_df
      in if product_forecast = [] \<or> product_inventory = [] then []
         else
           let by_date = by_forcast_date sv product_forecast;
               dates = unique (map forcast_date by_date)
           in map (\<lambda>current_date.
                     let (days_covered, total_inventory) =
                           calculate_days_covered sv by_date product_inventory
                             (Some current_date)
                     in \<lparr>date = current_date, days_forward_coverage = days_covered,
                         total_inventory = total_inventory\<rparr>)
                  dates)"

section \<open>Notions used in the statements\<close>

text \<open>
  The rows of one product that pass the reference-date filter and the product filter of
  \<^verbatim>\<open>calculate_dfc\<close>.
\<close>

definition product_forecast_from ::
  "forecast_record list \<Rightarrow> timestamp option \<Rightarrow> string \<Rightarrow> forecast_record list" where
  "product_forecast_from forecast_df c p =
     filter (\<lambda>r. forcast_product_id r = p \<and> ge_timestamp (forcast_date r) c) forecast_df"

definition product_inventory_from ::
  "inventory_batch list \<Rightarrow> timestamp option \<Rightarrow> string \<Rightarrow> inventory_batch list" where
  "product_inventory_from inventory_df c p =
     filter (\<lambda>b. inventory_product_id b = p \<and> ge_timestamp (inventory_expiry_date b) c)
       inventory_df"

text \<open>The data model's constraint on quantities: no batch holds a negative quantity.\<close>

definition nonneg_quantities :: "inventory_batch list \<Rightarrow> bool" where
  "nonneg_quantities batches = list_all (\<lambda>b. 0 \<le> inventory_inventory b) batches"

text \<open>
  No batch holds a negative quantity, and the quantities add up to less than \<open>2 ^ 63\<close>:
  no sum that the simulation takes of these batches leaves the range of \<^verbatim>\<open>int64\<close>.
\<close>

definition quantities_fit :: "inventory_batch list \<Rightarrow> bool" where
  "quantities_fit batches =
     (nonneg_quantities batches \<and> sum_list (map inventory_inventory batches) < 2 ^ 63)"

text \<open>The data model's one record per product and day: no two records bear the same date.\<close>

definition distinct_dates :: "forecast_record list \<Rightarrow> bool" where
  "distinct_dates forecast = distinct (map forcast_date forecast)"

text \<open>The stock that is still usable on day \<open>t\<close>: the batches that expire on \<open>t\<close> or later.\<close>

definition available :: "timestamp \<Rightarrow> inventory_batch list \<Rightarrow> int" where
  "available t batches =
     sum_list (map inventory_inventory (filter (\<lambda>b. t \<le> inventory_expiry_date b) batches))"

text \<open>The data model's constraint on demand: no forecast record has a negative demand.\<close>

definition nonneg_demand :: "forecast_record list \<Rightarrow> bool" where
  "nonneg_demand forecast = list_all (\<lambda>r. 0 \<le> forcast_forecasted_sales r) forecast"



section \<open>The simulation as the specification words it\<close>

text \<open>
  Removal of the batches whose expiry date is strictly before the date under evaluation.
\<close>

definition surviving :: "timestamp \<Rightarrow> inventory_batch list \<Rightarrow> inventory_batch list" where
  "surviving d batches = filter (\<lambda>b. \<not> inventory_expiry_date b < d) batches"

text \<open>
  FIFO depletion of a list of batches in ascending order of expiry: every batch gives what
  is still demanded, up to its quantity. Once the demand is absorbed nothing more is taken.
\<close>

fun spec_deplete :: "int \<Rightarrow> inventory_batch list \<Rightarrow> inventory_batch list" where
  "spec_deplete demand [] = []"
| "spec_deplete demand (b # rest) =
     (let taken = min demand (inventory_inventory b)
      in b\<lparr>inventory_inventory := inventory_inventory b - taken\<rparr>
           # spec_deplete (demand - taken) rest)"

text \<open>
  The stock after the given forecast records, in order: for each record, the expired
  batches are removed and the record's demand is depleted.
\<close>

fun spec_stock_after :: "forecast_record list \<Rightarrow> inventory_batch list \<Rightarrow> inventory_batch list"
  where
  "spec_stock_after [] batches = batches"
| "spec_stock_after (r # rest) batches =
     spec_stock_after rest
       (spec_deplete (forcast_forecasted_sales r) (surviving (forcast_date r) batches))"

text \<open>
  Day \<open>k\<close> of the forecast can be met: after the depletion by the records before it and
  the removal of the batches expired on its date, the remaining total quantity is at
  least its demand.
\<close>

definition spec_day_covered :: "forecast_record list \<Rightarrow> inventory_batch list \<Rightarrow> nat \<Rightarrow> bool" where
  "spec_day_covered forecast batches k =
     (forcast_forecasted_sales (forecast ! k) \<le>
        sum_list (map inventory_inventory
          (surviving (forcast_date (forecast ! k)) (spec_stock_after (take k forecast) batches))))"

definition spec_prefix_covered :: "forecast_record list \<Rightarrow> inventory_batch list \<Rightarrow> nat \<Rightarrow> bool"
  where
  "spec_prefix_covered forecast batches n = list_all (spec_day_covered forecast batches) [0..<n]"

text \<open>The length of the longest prefix of the forecast all of whose days can be met.\<close>

definition spec_days_forward_coverage :: "forecast_record list \<Rightarrow> inventory_batch list \<Rightarrow> nat"
  where
  "spec_days_forward_coverage forecast batches =
     Max (set (filter (spec_prefix_covered forecast batches) [0..<Suc (length forecast)]))"



section \<open>The engine on a store of tables\<close>

text \<open>
  pandas tables are mutable objects and Python passes references to them. To state what
  the engine does to the caller's tables, the same code is modelled a second time on a
  store: a table is an address, the store lists the tables allocated so far, and every
  pandas operation says which table it writes.
  \<^item> \<^verbatim>\<open>df.copy()\<close>, \<^verbatim>\<open>df[mask]\<close> and \<^verbatim>\<open>df.sort_values(col)\<close> allocate a new table
    and leave \<^verbatim>\<open>df\<close> as it is;
  \<^item> \<^verbatim>\<open>df[col] = values\<close> and \<^verbatim>\<open>df.at[idx, col] = value\<close> write into \<^verbatim>\<open>df\<close>
    itself.
  Rows are addressed by position.

  A table of the store has, besides its rows, the type of its date column:
  \<^verbatim>\<open>object\<close> when the cells are the strings that \<^verbatim>\<open>pd.read_csv\<close> delivers,
  \<^verbatim>\<open>datetime64\<close> when they are timestamps. The date of a row is the date its cell
  denotes, in either form.
\<close>

datatype dtype = object_dtype | datetime64_dtype

record forecast_table =
  forecast_rows :: "forecast_record list"
  forecast_date_dtype :: dtype

record inventory_table =
  inventory_rows :: "inventory_batch list"
  inventory_expiry_date_dtype :: dtype

record store =
  forecasts :: "forecast_table list"
  inventories :: "inventory_table list"

definition forecast_at :: "store \<Rightarrow> nat \<Rightarrow> forecast_record list" where
  "forecast_at s a = forecast_rows (forecasts s ! a)"

definition inventory_at :: "store \<Rightarrow> nat \<Rightarrow> inventory_batch list" where
  "inventory_at s a = inventory_rows (inventories s ! a)"

definition new_forecast :: "forecast_table \<Rightarrow> store \<Rightarrow> nat \<times> store" where
  "new_forecast t s = (length (forecasts s), s\<lparr>forecasts := forecasts s @ [t]\<rparr>)"

definition new_inventory :: "inventory_table \<Rightarrow> store \<Rightarrow> nat \<times> store" where
  "new_inventory t s = (length (inventories s), s\<lparr>inventories := inventories s @ [t]\<rparr>)"

text \<open>\<^verbatim>\<open>df.copy()\<close>\<close>

definition copy_forecast :: "nat \<Rightarrow> store \<Rightarrow> nat \<times> store" where
  "copy_forecast a s = new_forecast (forecasts s ! a) s"

definition copy_inventory :: "nat \<Rightarrow> store \<Rightarrow> nat \<times> store" where
  "copy_inventory a s = new_inventory (inventories s ! a) s"

text \<open>\<^verbatim>\<open>df[mask]\<close>, the mask given as the predicate \<open>keep\<close> on rows\<close>

definition select_forecast :: "(forecast_record \<Rightarrow> bool) \<Rightarrow> nat \<Rightarrow> store \<Rightarrow> nat \<times> store" where
  "select_forecast keep a s =
     new_forecast ((forecasts s ! a)\<lparr>forecast_rows := filter keep (forecast_at s a)\<rparr>) s"

definition select_inventory :: "(inventory_batch \<Rightarrow> bool) \<Rightarrow> nat \<Rightarrow> store \<Rightarrow> nat \<times> store" where
  "select_inventory keep a s =
     new_inventory ((inventories s ! a)\<lparr>inventory_rows := filter keep (inventory_at s a)\<rparr>) s"

text \<open>\<^verbatim>\<open>df.sort_values(...)\<close>, the sort given as the function \<open>sort_rows\<close>\<close>

definition sort_forecast ::
  "(forecast_record list \<Rightarrow> forecast_record list) \<Rightarrow> nat \<Rightarrow> store \<Rightarrow> nat \<times> store" where
  "sort_forecast sort_rows a s =
     new_forecast ((forecasts s ! a)\<lparr>forecast_rows := sort_rows (forecast_at s a)\<rparr>) s"

definition sort_inventory ::
  "(inventory_batch list \<Rightarrow> inventory_batch list) \<Rightarrow> nat \<Rightarrow> store \<Rightarrow> nat \<times> store" where
  "sort_inventory sort_rows a s =
     new_inventory ((inventories s ! a)\<lparr>inventory_rows := sort_rows (inventory_at s a)\<rparr>) s"

text \<open>\<^verbatim>\<open>df.at[idx, INVENTORY_INVENTORY] = value\<close>: a write into table \<open>a\<close>\<close>

definition at_set_inventory :: "nat \<Rightarrow> nat \<Rightarrow> int \<Rightarrow> store \<Rightarrow> store" where
  "at_set_inventory a idx v s =
     s\<lparr>inventories :=
         (inventories s)
           [a := (inventories s ! a)
                   \<lparr>inventory_rows :=
                      (inventory_at s a)
                        [idx := (inventory_at s a ! idx)\<lparr>inventory_inventory := v\<rparr>]\<rparr>]\<rparr>"

text \<open>
  \<^verbatim>\<open>df[col] = pd.to_datetime(df[col])\<close>: the date column of table \<open>a\<close> is replaced, in
  table \<open>a\<close> itself, by a column of timestamps. The rows denote the dates they denoted.
\<close>

definition assign_forecast_date :: "nat \<Rightarrow> store \<Rightarrow> store" where
  "assign_forecast_date a s =
     s\<lparr>forecasts :=
         (forecasts s)[a := (forecasts s ! a)\<lparr>forecast_date_dtype := datetime64_dtype\<rparr>]\<rparr>"

definition assign_inventory_expiry_date :: "nat \<Rightarrow> store \<Rightarrow> store" where
  "assign_inventory_expiry_date a s =
     s\<lparr>inventories :=
         (inventories s)
           [a := (inventories s ! a)\<lparr>inventory_expiry_date_dtype := datetime64_dtype\<rparr>]\<rparr>"

text \<open>
  The inner loop of \<^verbatim>\<open>_calculate_days_covered\<close> on the store: it runs over the rows
  that \<^verbatim>\<open>iterrows\<close> read from table \<open>a\<close> when the loop started, \<open>idx\<close> being the
  position of the row at hand, and writes into table \<open>a\<close>.
\<close>

fun fifo_consumption_on :: "nat \<Rightarrow> nat \<Rightarrow> int \<Rightarrow> inventory_batch list \<Rightarrow> store \<Rightarrow> store" where
  "fifo_consumption_on a idx demand_to_fulfill [] s = s"
| "fifo_consumption_on a idx demand_to_fulfill (inv_row # rest) s =
     (let batch_quantity = inventory_inventory inv_row in
      if batch_quantity \<ge> demand_to_fulfill
      then at_set_inventory a idx (batch_quantity - demand_to_fulfill) s
      else fifo_consumption_on a (Suc idx) (demand_to_fulfill - batch_quantity) rest
             (at_set_inventory a idx 0 s))"

text \<open>
  The variables of the outer loop: \<^verbatim>\<open>days_covered\<close>, \<^verbatim>\<open>remaining_inventory\<close> and
  the table that \<^verbatim>\<open>product_inventory\<close> refers to.
\<close>

record sim_ref_state =
  ref_days_covered :: nat
  ref_remaining_inventory :: int
  ref_product_inventory :: nat

definition forecast_step_on ::
  "forecast_record \<Rightarrow> sim_ref_state \<Rightarrow> store \<Rightarrow> (bool \<times> sim_ref_state) \<times> store" where
  "forecast_step_on forecast_row st s =
     (let forecast_date = forcast_date forecast_row;
          daily_demand = forcast_forecasted_sales forecast_row;
          (a, s1) = select_inventory (\<lambda>b. inventory_expiry_date b \<ge> forecast_date)
                      (ref_product_inventory st) s;
          remaining = (if inventory_at s1 a = [] then 0
                       else series_sum (map inventory_inventory (inventory_at s1 a)))
      in if remaining \<ge> daily_demand
         then ((True, \<lparr>ref_days_covered = ref_days_covered st + 1,
                       ref_remaining_inventory = remaining, ref_product_inventory = a\<rparr>),
               fifo_consumption_on a 0 daily_demand (inventory_at s1 a) s1)
         else ((False, \<lparr>ref_days_covered = ref_days_covered st,
                        ref_remaining_inventory = remaining, ref_product_inventory = a\<rparr>),
               s1))"

fun forecast_loop_on ::
  "forecast_record list \<Rightarrow> sim_ref_state \<Rightarrow> store \<Rightarrow> sim_ref_state \<times> store" where
  "forecast_loop_on [] st s = (st, s)"
| "forecast_loop_on (forecast_row # rest) st s =
     (let ((continue, st'), s') = forecast_step_on forecast_row st s
      in if continue then forecast_loop_on rest st' s' else (st', s'))"

definition calculate_days_covered_on ::
  "sort_values \<Rightarrow> nat \<Rightarrow> nat \<Rightarrow> timestamp option \<Rightarrow> store \<Rightarrow> (nat \<times> int) \<times> store" where
  "calculate_days_covered_on sv product_forecast product_inventory start_date s =
     (let (forecast0, s1) = copy_forecast product_forecast s;
          (inventory0, s2) = copy_inventory product_inventory s1;
          (forecast1, inventory1, s4) =
            (case start_date of None \<Rightarrow> (forecast0, inventory0, s2)
             | Some d \<Rightarrow>
                 let (f, s3) = select_forecast (\<lambda>r. forcast_date r \<ge> d) forecast0 s2;
                     (i, s4) = select_inventory (\<lambda>b. inventory_expiry_date b \<ge> d) inventory0 s3
                 in (f, i, s4));
          (inventory2, s5) = sort_inventory (by_inventory_expiry_date sv) inventory1 s4;
          (forecast2, s6) = sort_forecast (by_forcast_date sv) forecast1 s5;
          total_inventory = series_sum (map inventory_inventory (inventory_at s6 inventory2))
      in if inventory_at s6 inventory2 = [] \<or> forecast_at s6 forecast2 = []
         then ((0, total_inventory), s6)
         else
           let (st, s7) =
                 forecast_loop_on (forecast_at s6 forecast2)
                   \<lparr>ref_days_covered = 0, ref_remaining_inventory = total_inventory,
                    ref_product_inventory = inventory2\<rparr> s6
           in ((ref_days_covered st, total_inventory), s7))"

text \<open>The body of the loop over the products of \<^verbatim>\<open>calculate_dfc\<close>, on the store.\<close>

definition product_result_on ::
  "sort_values \<Rightarrow> nat \<Rightarrow> nat \<Rightarrow> string \<Rightarrow> store \<Rightarrow> coverage_result \<times> store" where
  "product_result_on sv future valid product_id s =
     (let (f0, s1) = select_forecast (\<lambda>r. forcast_product_id r = product_id) future s;
          (product_forecast, s2) = copy_forecast f0 s1
      in if forecast_at s2 product_forecast = []
         then (\<lparr>coverage_product_id = product_id, coverage_days_forward_coverage = 0,
                coverage_total_inventory = 0, has_forecast = Some False\<rparr>, s2)
         else
           let (i0, s3) = select_inventory (\<lambda>b. inventory_product_id b = product_id) valid s2;
               (product_inventory, s4) = copy_inventory i0 s3
           in if inventory_at s4 product_inventory = []
              then (\<lparr>coverage_product_id = product_id, coverage_days_forward_coverage = 0,
                     coverage_total_inventory = 0, has_forecast = Some True\<rparr>, s4)
              else
                let ((days_covered, total_inventory), s5) =
                      calculate_days_covered_on sv product_forecast product_inventory None s4
                in (\<lparr>coverage_product_id = product_id,
                     coverage_days_forward_coverage = days_covered,
                     coverage_total_inventory = total_inventory, has_forecast = None\<rparr>, s5))"

fun products_loop_on ::
  "sort_values \<Rightarrow> nat \<Rightarrow> nat \<Rightarrow> string list \<Rightarrow> store \<Rightarrow> coverage_result list \<times> store" where
  "products_loop_on sv future valid [] s = ([], s)"
| "products_loop_on sv future valid (product_id # rest) s =
     (let (row, s1) = product_result_on sv future valid product_id s;
          (rows, s2) = products_loop_on sv future valid rest s1
      in (row # rows, s2))"

definition calculate_dfc_on ::
  "sort_values \<Rightarrow> nat \<Rightarrow> nat \<Rightarrow> timestamp option \<Rightarrow> store \<Rightarrow> coverage_result list \<times> store"
  where
  "calculate_dfc_on sv forecast_df inventory_df current_date s =
     (let (forecast1, s1) = copy_forecast forecast_df s;
          (inventory1, s2) = copy_inventory inventory_df s1;
          s3 = assign_forecast_date forecast1 s2;
          s4 = assign_inventory_expiry_date inventory1 s3;
          current_date' = resolve_current_date (forecast_at s4 forecast1) current_date;
          (v0, s5) = select_inventory
                       (\<lambda>b. ge_timestamp (inventory_expiry_date b) current_date') inventory1 s4;
          (valid, s6) = copy_inventory v0 s5;
          (u0, s7) = select_forecast
                       (\<lambda>r. ge_timestamp (forcast_date r) current_date') forecast1 s6;
          (u1, s8) = copy_forecast u0 s7;
          (future, s9) = sort_forecast (sort_key (\<lambda>r. (forcast_product_id r, forcast_date r)))
                           u1 s8
      in products_loop_on sv future valid
           (all_products (forecast_at s9 future) (inventory_at s9 valid)) s9)"

text \<open>The loop over the dates of \<^verbatim>\<open>calculate_dfc_over_time\<close>, on the store.\<close>

fun dates_loop_on ::
  "sort_values \<Rightarrow> nat \<Rightarrow> nat \<Rightarrow> timestamp list \<Rightarrow> store \<Rightarrow> over_time_row list \<times> store" where
  "dates_loop_on sv product_forecast product_inventory [] s = ([], s)"
| "dates_loop_on sv product_forecast product_inventory (current_date # rest) s =
     (let ((days_covered, total_inventory), s1) =
            calculate_days_covered_on sv product_forecast product_inventory (Some current_date) s;
          (rows, s2) = dates_loop_on sv product_forecast product_inventory rest s1
      in (\<lparr>date = current_date, days_forward_coverage = days_covered,
           total_inventory = total_inventory\<rparr> # rows, s2))"

definition calculate_dfc_over_time_on ::
  "sort_values \<Rightarrow> nat \<Rightarrow> nat \<Rightarrow> string \<Rightarrow> store \<Rightarrow> over_time_row list \<times> store" where
  "calculate_dfc_over_time_on sv forecast_df inventory_df product_id s =
     (let (f0, s1) = select_forecast (\<lambda>r. forcast_product_id r = product_id) forecast_df s;
          (product_forecast, s2) = copy_forecast f0 s1;
          (i0, s3) = select_inventory (\<lambda>b. inventory_product_id b = product_id) inventory_df s2;
          (product_inventory, s4) = copy_inventory i0 s3
      in if forecast_at s4 product_forecast = [] \<or> inventory_at s4 product_inventory = []
         then ([], s4)
         else
           let (by_date, s5) = sort_forecast (by_forcast_date sv) product_forecast s4
           in dates_loop_on sv by_date product_inventory
                (unique (map forcast_date (forecast_at s5 by_date))) s5)"

text \<open>
  The tables that exist in store \<open>s\<close> are still there in store \<open>s'\<close>, with the same
  rows and the same column types.
\<close>

definition tables_kept :: "store \<Rightarrow> store \<Rightarrow> bool" where
  "tables_kept s s' =
     (length (forecasts s) \<le> length (forecasts s') \<and>
      take (length (forecasts s)) (forecasts s') = forecasts s \<and>
      length (inventories s) \<le> length (inventories s') \<and>
      take (length (inventories s)) (inventories s') = inventories s)"

text \<open>
  The state of the loop on the store, read as a state of the loop on lists: the table
  that \<^verbatim>\<open>product_inventory\<close> refers to is replaced by its rows.
\<close>

definition abs_state :: "store \<Rightarrow> sim_ref_state \<Rightarrow> sim_state" where
  "abs_state s st =
     \<lparr>st_days_covered = ref_days_covered st,
      st_remaining_inventory = ref_remaining_inventory st,
      st_product_inventory = inventory_at s (ref_product_inventory st)\<rparr>"

section \<open>Scenarios\<close>

text \<open>
  The forecast of the specification's scenarios: 5 units on each of 2024-01-01, 2024-01-02
  and 2024-01-03 (days 19723, 19724 and 19725 after 1970-01-01).
\<close>

definition scenario_forecast :: "forecast_record list" where
  "scenario_forecast =
     [\<lparr>forcast_product_id = ''P1'', forcast_date = 19723, forcast_forecasted_sales = 5\<rparr>,
      \<lparr>forcast_product_id = ''P1'', forcast_date = 19724, forcast_forecasted_sales = 5\<rparr>,
      \<lparr>forcast_product_id = ''P1'', forcast_date = 19725, forcast_forecasted_sales = 5\<rparr>]"

text \<open>Scenario B: one batch of 12 units that expires on 2024-01-02.\<close>

definition scenario_b_inventory :: "inventory_batch list" where
  "scenario_b_inventory =
     [\<lparr>inventory_product_id = ''P1'', inventory_batch_id = ''B1'', inventory_inventory = 12,
       inventory_expiry_date = 19724\<rparr>]"

text \<open>A batch of another product, expired on 2023-12-29, before the first forecast day.\<close>

definition expired_inventory :: "inventory_batch list" where
  "expired_inventory =
     [\<lparr>inventory_product_id = ''P2'', inventory_batch_id = ''B9'', inventory_inventory = 40,
       inventory_expiry_date = 19720\<rparr>]"

text \<open>Two batches of the forecast's product: 12 units until 2024-01-02, 8 until 2024-01-03.\<close>

definition two_batch_inventory :: "inventory_batch list" where
  "two_batch_inventory =
     [\<lparr>inventory_product_id = ''P1'', inventory_batch_id = ''B1'', inventory_inventory = 12,
       inventory_expiry_date = 19724\<rparr>,
      \<lparr>inventory_product_id = ''P1'', inventory_batch_id = ''B2'', inventory_inventory = 8,
       inventory_expiry_date = 19725\<rparr>]"

text \<open>Scenario A's inventory: one batch of 12 units that expires on 2024-01-05.\<close>

definition scenario_a_inventory :: "inventory_batch list" where
  "scenario_a_inventory =
     [\<lparr>inventory_product_id = ''P1'', inventory_batch_id = ''B1'', inventory_inventory = 12,
       inventory_expiry_date = 19727\<rparr>]"

text \<open>
  A forecast with a day that cannot be met between two that can: 5, 50 and 1 units on
  2024-01-01, 2024-01-02 and 2024-01-03.
\<close>

definition gap_forecast :: "forecast_record list" where
  "gap_forecast =
     [\<lparr>forcast_product_id = ''P1'', forcast_date = 19723, forcast_forecasted_sales = 5\<rparr>,
      \<lparr>forcast_product_id = ''P1'', forcast_date = 19724, forcast_forecasted_sales = 50\<rparr>,
      \<lparr>forcast_product_id = ''P1'', forcast_date = 19725, forcast_forecasted_sales = 1\<rparr>]"


text \<open>
  Two batches of \<open>2 ^ 62\<close> units each, expiring on 2024-01-02 and on 2024-01-05: their
  quantities add up to \<open>2 ^ 63\<close>, one more than an \<^verbatim>\<open>int64\<close> holds.
\<close>

definition huge_inventory :: "inventory_batch list" where
  "huge_inventory =
     [\<lparr>inventory_product_id = ''P1'', inventory_batch_id = ''B1'',
       inventory_inventory = 4611686018427387904, inventory_expiry_date = 19724\<rparr>,
      \<lparr>inventory_product_id = ''P1'', inventory_batch_id = ''B2'',
       inventory_inventory = 4611686018427387904, inventory_expiry_date = 19727\<rparr>]"

text \<open>
  A store that holds the two tables of scenario B as \<^verbatim>\<open>pd.read_csv\<close> delivers them,
  each at address 0, the dates being strings.
\<close>

definition scenario_store :: store where
  "scenario_store =
     \<lparr>forecasts =
        [\<lparr>forecast_rows = scenario_forecast, forecast_date_dtype = object_dtype\<rparr>],
      inventories =
        [\<lparr>inventory_rows = scenario_b_inventory, inventory_expiry_date_dtype = object_dtype\<rparr>]\<rparr>"

section \<open>Basic facts about the primitives\<close>

lemma set_unique_acc: "set (unique_acc seen xs) = set xs - set seen"
  by (induction xs arbitrary: seen) auto

lemma distinct_unique_acc: "distinct (unique_acc seen xs)"
  by (induction xs arbitrary: seen) (auto simp: set_unique_acc)

lemma set_unique [simp]: "set (unique xs) = set xs"
  by (simp add: unique_def set_unique_acc)

lemma distinct_unique [simp]: "distinct (unique xs)"
  by (simp add: unique_def distinct_unique_acc)

lemma sorted_unique_acc: "sorted xs \<Longrightarrow> sorted (unique_acc seen xs)"
  by (induction xs arbitrary: seen) (auto simp: set_unique_acc)

lemma sorted_unique: "sorted xs \<Longrightarrow> sorted (unique xs)"
  by (simp add: unique_def sorted_unique_acc)

lemma series_min_Min:
  assumes "ds \<noteq> []"
  shows "series_min ds = Some (Min (set ds))"
proof (cases ds)
  case Nil
  then show ?thesis using assms by simp
next
  case (Cons d rest)
  have "fold min rest d = Min (set (d # rest))"
    by (rule Min.set_eq_fold [symmetric])
  then show ?thesis using Cons by simp
qed

lemma set_all_products:
  "set (all_products future valid) =
     forcast_product_id ` set future \<union> inventory_product_id ` set valid"
  by (simp add: all_products_def)

lemma distinct_all_products: "distinct (all_products future valid)"
  by (simp add: all_products_def)

lemma product_result_id [simp]: "coverage_product_id (product_result sv future valid p) = p"
  by (simp add: product_result_def Let_def split: prod.split)

lemma set_future_forecast:
  "set (future_forecast forecast_df c) = {r \<in> set forecast_df. ge_timestamp (forcast_date r) c}"
  by (auto simp: future_forecast_def)

lemma set_valid_inventory:
  "set (valid_inventory inventory_df c) =
     {b \<in> set inventory_df. ge_timestamp (inventory_expiry_date b) c}"
  by (auto simp: valid_inventory_def)

lemma map_id_calculate_dfc:
  "map coverage_product_id (calculate_dfc sv forecast_df inventory_df current_date) =
     all_products (future_forecast forecast_df (resolve_current_date forecast_df current_date))
       (valid_inventory inventory_df (resolve_current_date forecast_df current_date))"
  by (simp add: calculate_dfc_def Let_def comp_def)

lemma calculate_dfc_no_forecast: "calculate_dfc sv [] inventory_df None = []"
  by (simp add: calculate_dfc_def resolve_current_date_def valid_inventory_def
      future_forecast_def all_products_def ge_timestamp_def unique_def)

lemma resolve_default:
  "forecast_df \<noteq> [] \<Longrightarrow>
   resolve_current_date forecast_df None = Some (Min (forcast_date ` set forecast_df))"
  by (simp add: resolve_current_date_def series_min_Min)

lemma calculate_dfc_default:
  "resolve_current_date forecast_df None = Some c \<Longrightarrow>
   calculate_dfc sv forecast_df inventory_df None =
     calculate_dfc sv forecast_df inventory_df (Some c)"
  by (simp add: calculate_dfc_def resolve_current_date_def)

section \<open>The sum of an \<^verbatim>\<open>int64\<close> column\<close>

lemma wrap_int64_id: "- (2 ^ 63) \<le> x \<Longrightarrow> x < 2 ^ 63 \<Longrightarrow> wrap_int64 x = x"
  by (simp add: wrap_int64_def)


lemma wrap_int64_range: "- (2 ^ 63) \<le> wrap_int64 x \<and> wrap_int64 x < 2 ^ 63"
proof -
  have "0 \<le> (x + 2 ^ 63) mod (2 ^ 64 :: int)" "(x + 2 ^ 63) mod (2 ^ 64 :: int) < 2 ^ 64"
    by simp_all
  then show ?thesis by (simp add: wrap_int64_def)
qed

lemma series_sum_Nil [simp]: "series_sum [] = 0"
  by (simp add: series_sum_def wrap_int64_def)


lemma series_sum_exact: "0 \<le> sum_list xs \<Longrightarrow> sum_list xs < 2 ^ 63 \<Longrightarrow> series_sum xs = sum_list xs"
  by (simp add: series_sum_def wrap_int64_id)

section \<open>The sort\<close>

lemma sorts_forecast:
  assumes "sorts sv"
  shows "mset (by_forcast_date sv xs) = mset xs"
    and "sorted (map forcast_date (by_forcast_date sv xs))"
  using assms by (simp_all add: sorts_def)

lemma sorts_inventory:
  assumes "sorts sv"
  shows "mset (by_inventory_expiry_date sv ys) = mset ys"
    and "sorted (map inventory_expiry_date (by_inventory_expiry_date sv ys))"
  using assms by (simp_all add: sorts_def)

lemma sorts_stable_sort_values: "sorts stable_sort_values"
  by (simp add: sorts_def stable_sort_values_def)

lemma set_by_forcast_date [simp]: "sorts sv \<Longrightarrow> set (by_forcast_date sv xs) = set xs"
  by (metis sorts_forecast(1) set_mset_mset)

lemma set_by_inventory_expiry_date [simp]:
  "sorts sv \<Longrightarrow> set (by_inventory_expiry_date sv ys) = set ys"
  by (metis sorts_inventory(1) set_mset_mset)

lemma by_forcast_date_eq_Nil [simp]: "sorts sv \<Longrightarrow> by_forcast_date sv xs = [] \<longleftrightarrow> xs = []"
  by (metis sorts_forecast(1) mset_zero_iff)

lemma by_inventory_expiry_date_eq_Nil [simp]:
  "sorts sv \<Longrightarrow> by_inventory_expiry_date sv ys = [] \<longleftrightarrow> ys = []"
  by (metis sorts_inventory(1) mset_zero_iff)

lemma sum_list_mset_cong:
  fixes f :: "'a \<Rightarrow> int"
  assumes "mset xs = mset ys"
  shows "sum_list (map f xs) = sum_list (map f ys)"
proof -
  have "sum_list (map f xs) = sum_mset (image_mset f (mset xs))"
    by (simp flip: mset_map add: sum_mset_sum_list)
  also have "\<dots> = sum_mset (image_mset f (mset ys))"
    by (simp add: assms)
  also have "\<dots> = sum_list (map f ys)"
    by (simp flip: mset_map add: sum_mset_sum_list)
  finally show ?thesis .
qed

lemma sum_list_by_inventory_expiry_date:
  "sorts sv \<Longrightarrow>
   sum_list (map inventory_inventory (by_inventory_expiry_date sv ys)) =
     sum_list (map inventory_inventory ys)"
  by (rule sum_list_mset_cong) (rule sorts_inventory)

text \<open>
  Rows with pairwise distinct keys have one ascending order only: every sort gives it.
\<close>

lemma sorted_by_key_unique:
  fixes k :: "'a \<Rightarrow> 'b::linorder"
  assumes "mset xs = mset ys" and "sorted (map k xs)" and "sorted (map k ys)"
      and "distinct (map k ys)"
  shows "xs = ys"
proof -
  have m: "mset (map k xs) = mset (map k ys)"
    using assms(1) by simp
  then have dx: "distinct (map k xs)"
    using assms(4) by (metis mset_eq_imp_distinct_iff)
  have "set (map k xs) = set (map k ys)"
    using m by (metis set_mset_mset)
  with assms(2,3,4) dx have keys: "map k xs = map k ys"
    by (intro sorted_distinct_set_unique)
  have "set xs = set ys"
    using assms(1) by (metis set_mset_mset)
  moreover have "inj_on k (set ys)"
    using assms(4) by (simp add: distinct_map)
  ultimately have "inj_on k (set xs \<union> set ys)" by simp
  with keys show ?thesis
    by (simp add: inj_on_map_eq_map)
qed

lemma by_forcast_date_distinct:
  assumes "sorts sv" and "distinct (map forcast_date xs)"
  shows "by_forcast_date sv xs = sort_key forcast_date xs"
proof (rule sorted_by_key_unique [where k = forcast_date])
  show "mset (by_forcast_date sv xs) = mset (sort_key forcast_date xs)"
    using assms(1) by (simp add: sorts_forecast)
  show "sorted (map forcast_date (by_forcast_date sv xs))"
    using assms(1) by (rule sorts_forecast)
  show "sorted (map forcast_date (sort_key forcast_date xs))" by simp
  have "mset (map forcast_date (sort_key forcast_date xs)) = mset (map forcast_date xs)"
    by simp
  then show "distinct (map forcast_date (sort_key forcast_date xs))"
    using assms(2) by (metis mset_eq_imp_distinct_iff)
qed

lemma by_inventory_expiry_date_distinct:
  assumes "sorts sv" and "distinct (map inventory_expiry_date ys)"
  shows "by_inventory_expiry_date sv ys = sort_key inventory_expiry_date ys"
proof (rule sorted_by_key_unique [where k = inventory_expiry_date])
  show "mset (by_inventory_expiry_date sv ys) = mset (sort_key inventory_expiry_date ys)"
    using assms(1) by (simp add: sorts_inventory)
  show "sorted (map inventory_expiry_date (by_inventory_expiry_date sv ys))"
    using assms(1) by (rule sorts_inventory)
  show "sorted (map inventory_expiry_date (sort_key inventory_expiry_date ys))" by simp
  have "mset (map inventory_expiry_date (sort_key inventory_expiry_date ys)) =
        mset (map inventory_expiry_date ys)"
    by simp
  then show "distinct (map inventory_expiry_date (sort_key inventory_expiry_date ys))"
    using assms(2) by (metis mset_eq_imp_distinct_iff)
qed

lemmas dfc_eval_defs =
  calculate_dfc_def resolve_current_date_def valid_inventory_def future_forecast_def
  all_products_def product_result_def unique_def calculate_days_covered_def sorted_inventory_def
  sorted_forecast_def initial_state_def forecast_step_def ge_timestamp_def Let_def
  series_sum_def wrap_int64_def

section \<open>Lookup and the rows of the two tables\<close>

lemma find_map_key:
  assumes "\<And>x. g (f x) = x"
  shows "find (\<lambda>r. g r = p) (map f xs) = (if p \<in> set xs then Some (f p) else None)"
  using assms by (induction xs) auto

lemma find_calculate_dfc:
  "find (\<lambda>r. coverage_product_id r = p) (calculate_dfc sv forecast_df inventory_df current_date) =
     (let c = resolve_current_date forecast_df current_date;
          future = future_forecast forecast_df c;
          valid = valid_inventory inventory_df c
      in if p \<in> set (all_products future valid) then Some (product_result sv future valid p)
         else None)"
  by (simp add: calculate_dfc_def Let_def find_map_key)

lemma filter_valid_inventory:
  "filter (\<lambda>b. inventory_product_id b = p) (valid_inventory inventory_df c) =
     product_inventory_from inventory_df c p"
  by (simp add: valid_inventory_def product_inventory_from_def conj_commute)

lemma insort_key_same_product:
  assumes "forcast_product_id x = p" and "\<forall>y\<in>set zs. forcast_product_id y = p"
  shows "insort_key (\<lambda>r. (forcast_product_id r, forcast_date r)) x zs =
         insort_key forcast_date x zs"
  using assms by (induction zs) (auto simp: less_eq_prod_def)

lemma sort_key_same_product:
  assumes "\<forall>y\<in>set ys. forcast_product_id y = p"
  shows "sort_key (\<lambda>r. (forcast_product_id r, forcast_date r)) ys = sort_key forcast_date ys"
  using assms
proof (induction ys)
  case Nil
  then show ?case by simp
next
  case (Cons y ys)
  then have "\<forall>z\<in>set (sort_key forcast_date ys). forcast_product_id z = p"
    by simp
  with Cons show ?case
    by (simp add: insort_key_same_product [where p = p])
qed

text \<open>
  The forecast rows of one product, as the loop over the products selects them from the
  table sorted by product and date: they come in ascending order of date.
\<close>

lemma filter_future_forecast:
  "filter (\<lambda>r. forcast_product_id r = p) (future_forecast forecast_df c) =
     sort_key forcast_date (product_forecast_from forecast_df c p)"
proof -
  let ?k = "\<lambda>r. (forcast_product_id r, forcast_date r)"
  let ?xs = "filter (\<lambda>r. ge_timestamp (forcast_date r) c) forecast_df"
  let ?ys = "filter (\<lambda>r. forcast_product_id r = p) ?xs"
  have "filter (\<lambda>r. forcast_product_id r = p) (sort_key ?k ?xs) = sort_key ?k ?ys"
    by (rule filter_sort)
  also have "\<dots> = sort_key forcast_date ?ys"
    by (rule sort_key_same_product [where p = p]) simp
  also have "?ys = product_forecast_from forecast_df c p"
    by (simp add: product_forecast_from_def conj_commute)
  finally show ?thesis
    by (simp add: future_forecast_def)
qed

lemma sort_key_eq_Nil [simp]: "sort_key k xs = [] \<longleftrightarrow> xs = []"
  by (metis length_sort length_0_conv)

lemma mem_all_products:
  "p \<in> set (all_products (future_forecast forecast_df c) (valid_inventory inventory_df c)) \<longleftrightarrow>
     product_forecast_from forecast_df c p \<noteq> [] \<or> product_inventory_from inventory_df c p \<noteq> []"
  by (auto simp: set_all_products set_future_forecast set_valid_inventory filter_empty_conv
      product_forecast_from_def product_inventory_from_def)

text \<open>The row of a product that runs the simulation, in closed form.\<close>

lemma find_calculate_dfc_simulated:
  assumes "sorts sv"
      and "product_forecast_from forecast_df (resolve_current_date forecast_df current_date) p \<noteq> []"
      and "product_inventory_from inventory_df (resolve_current_date forecast_df current_date) p \<noteq> []"
  shows "find (\<lambda>r. coverage_product_id r = p)
           (calculate_dfc sv forecast_df inventory_df current_date) =
     Some \<lparr>coverage_product_id = p,
       coverage_days_forward_coverage =
         st_days_covered (forecast_loop
           (by_forcast_date sv (sort_key forcast_date
              (product_forecast_from forecast_df (resolve_current_date forecast_df current_date) p)))
           (initial_state (by_inventory_expiry_date sv
              (product_inventory_from inventory_df (resolve_current_date forecast_df current_date) p)))),
       coverage_total_inventory =
         series_sum (map inventory_inventory
           (product_inventory_from inventory_df (resolve_current_date forecast_df current_date) p)),
       has_forecast = None\<rparr>"
  using assms
  by (simp add: find_calculate_dfc mem_all_products product_result_def Let_def
      filter_future_forecast filter_valid_inventory calculate_days_covered_def
      sorted_forecast_def sorted_inventory_def series_sum_def sum_list_by_inventory_expiry_date)

lemma unique_sorted_dates:
  assumes "sorts sv"
  shows "unique (map forcast_date (by_forcast_date sv product_forecast)) =
           sorted_list_of_set (forcast_date ` set product_forecast)"
proof (rule sorted_distinct_set_unique)
  show "sorted (unique (map forcast_date (by_forcast_date sv product_forecast)))"
    using assms by (intro sorted_unique sorts_forecast)
qed (simp_all add: assms)

lemma calculate_dfc_over_time_rows:
  assumes "sorts sv"
  shows "calculate_dfc_over_time sv forecast_df inventory_df p =
     (let product_forecast = filter (\<lambda>r. forcast_product_id r = p) forecast_df;
          product_inventory = filter (\<lambda>b. inventory_product_id b = p) inventory_df
      in if product_forecast = [] \<or> product_inventory = [] then []
         else map (\<lambda>d. \<lparr>date = d,
                         days_forward_coverage =
                           fst (calculate_days_covered sv (by_forcast_date sv product_forecast)
                                  product_inventory (Some d)),
                         total_inventory =
                           snd (calculate_days_covered sv (by_forcast_date sv product_forecast)
                                  product_inventory (Some d))\<rparr>)
                (sorted_list_of_set (forcast_date ` set product_forecast)))"
  by (simp add: calculate_dfc_over_time_def Let_def unique_sorted_dates [OF assms] split_beta)

lemma snd_calculate_days_covered:
  assumes "sorts sv"
  shows "snd (calculate_days_covered sv product_forecast product_inventory (Some d)) =
           series_sum (map inventory_inventory
             (filter (\<lambda>b. d \<le> inventory_expiry_date b) product_inventory))"
  using assms
  by (simp add: calculate_days_covered_def Let_def sorted_inventory_def series_sum_def
      sum_list_by_inventory_expiry_date)

section \<open>The loop, its iterations and the specified simulation\<close>

lemma nonneg_quantities_iff:
  "nonneg_quantities batches \<longleftrightarrow> (\<forall>b\<in>set batches. 0 \<le> inventory_inventory b)"
  by (simp add: nonneg_quantities_def list_all_iff)

lemma nonneg_demand_iff:
  "nonneg_demand forecast \<longleftrightarrow> (\<forall>r\<in>set forecast. 0 \<le> forcast_forecasted_sales r)"
  by (simp add: nonneg_demand_def list_all_iff)

lemma nonneg_quantities_filter:
  "nonneg_quantities batches \<Longrightarrow> nonneg_quantities (filter P batches)"
  by (simp add: nonneg_quantities_iff)

lemma nonneg_by_inventory_expiry_date:
  "sorts sv \<Longrightarrow> nonneg_quantities (by_inventory_expiry_date sv ys) = nonneg_quantities ys"
  by (simp add: nonneg_quantities_iff)

lemma nonneg_quantities_Cons [simp]:
  "nonneg_quantities (b # batches) \<longleftrightarrow> 0 \<le> inventory_inventory b \<and> nonneg_quantities batches"
  by (simp add: nonneg_quantities_def)

lemma nonneg_quantities_Nil [simp]: "nonneg_quantities []"
  by (simp add: nonneg_quantities_def)

lemma nonneg_fifo_consumption:
  "nonneg_quantities batches \<Longrightarrow> nonneg_quantities (fifo_consumption d batches)"
  by (induction batches arbitrary: d) (auto simp: Let_def)

lemma expiry_fifo_consumption [simp]:
  "map inventory_expiry_date (fifo_consumption d batches) = map inventory_expiry_date batches"
  by (induction batches arbitrary: d) (auto simp: Let_def)

lemma length_fifo_consumption [simp]: "length (fifo_consumption d batches) = length batches"
  by (induction batches arbitrary: d) (auto simp: Let_def)

lemma fifo_consumption_spec_deplete:
  "nonneg_quantities batches \<Longrightarrow> fifo_consumption d batches = spec_deplete d batches"
proof (induction batches arbitrary: d)
  case Nil
  then show ?case by simp
next
  case (Cons b batches)
  have rest: "spec_deplete 0 batches = batches" if "nonneg_quantities batches" for batches
    using that by (induction batches) (auto simp: Let_def min_def)
  from Cons show ?case
    by (auto simp: Let_def min_def rest)
qed

lemma total_nonneg: "nonneg_quantities batches \<Longrightarrow> 0 \<le> sum_list (map inventory_inventory batches)"
  by (induction batches) auto

lemma surviving_filter:
  "filter (\<lambda>b. d \<le> inventory_expiry_date b) batches = surviving d batches"
  by (simp add: surviving_def not_less)

lemma sum_filter_le:
  "nonneg_quantities batches \<Longrightarrow>
   sum_list (map inventory_inventory (filter P batches)) \<le> sum_list (map inventory_inventory batches)"
  by (induction batches) auto

lemma sum_fifo_consumption_le:
  "nonneg_quantities batches \<Longrightarrow> 0 \<le> d \<Longrightarrow>
   sum_list (map inventory_inventory (fifo_consumption d batches))
     \<le> sum_list (map inventory_inventory batches)"
proof (induction batches arbitrary: d)
  case Nil
  then show ?case by simp
next
  case (Cons b batches)
  show ?case
  proof (cases "d \<le> inventory_inventory b")
    case True
    with Cons.prems show ?thesis by (simp add: Let_def)
  next
    case False
    with Cons.prems have "sum_list (map inventory_inventory
        (fifo_consumption (d - inventory_inventory b) batches))
        \<le> sum_list (map inventory_inventory batches)"
      by (intro Cons.IH) simp_all
    with False Cons.prems show ?thesis by (simp add: Let_def)
  qed
qed

lemma quantities_fit_filter: "quantities_fit batches \<Longrightarrow> quantities_fit (filter P batches)"
  unfolding quantities_fit_def
  using sum_filter_le [of batches P] by (auto simp: nonneg_quantities_filter)

lemma quantities_fit_surviving: "quantities_fit batches \<Longrightarrow> quantities_fit (surviving d batches)"
  by (simp add: surviving_def quantities_fit_filter)

lemma quantities_fit_fifo_consumption:
  "quantities_fit batches \<Longrightarrow> 0 \<le> d \<Longrightarrow> quantities_fit (fifo_consumption d batches)"
  unfolding quantities_fit_def
  using sum_fifo_consumption_le [of batches d] by (auto simp: nonneg_fifo_consumption)

lemma quantities_fit_remove1: "quantities_fit batches \<Longrightarrow> quantities_fit (remove1 b batches)"
proof -
  assume fit: "quantities_fit batches"
  then have nn: "nonneg_quantities batches" by (simp add: quantities_fit_def)
  have "sum_list (map inventory_inventory (remove1 b batches))
          \<le> sum_list (map inventory_inventory batches)"
    using nn by (induction batches) auto
  moreover have "nonneg_quantities (remove1 b batches)"
    using nn by (auto simp: nonneg_quantities_iff dest: notin_set_remove1)
  ultimately show ?thesis
    using fit by (simp add: quantities_fit_def)
qed

lemma quantities_fit_by_inventory_expiry_date:
  "sorts sv \<Longrightarrow> quantities_fit (by_inventory_expiry_date sv ys) = quantities_fit ys"
  by (simp add: quantities_fit_def nonneg_by_inventory_expiry_date
      sum_list_by_inventory_expiry_date)

lemma series_sum_fit:
  "quantities_fit batches \<Longrightarrow>
   series_sum (map inventory_inventory batches) = sum_list (map inventory_inventory batches)"
  by (simp add: quantities_fit_def series_sum_exact total_nonneg)


lemma forecast_step_eq:
  "forecast_step r st =
     (let stock = surviving (forcast_date r) (st_product_inventory st);
          remaining = series_sum (map inventory_inventory stock)
      in if forcast_forecasted_sales r \<le> remaining
         then (True, \<lparr>st_days_covered = st_days_covered st + 1,
                      st_remaining_inventory = remaining,
                      st_product_inventory = fifo_consumption (forcast_forecasted_sales r) stock\<rparr>)
         else (False, \<lparr>st_days_covered = st_days_covered st,
                       st_remaining_inventory = remaining,
                       st_product_inventory = stock\<rparr>))"
  by (simp add: forecast_step_def Let_def surviving_filter)





lemma sorted_surviving:
  "sorted (map inventory_expiry_date batches) \<Longrightarrow>
   sorted (map inventory_expiry_date (surviving d batches))"
  by (simp add: surviving_def sorted_filter)





lemma quantities_fit_sorted_inventory:
  assumes "sorts sv" and "quantities_fit product_inventory"
  shows "quantities_fit (sorted_inventory sv product_inventory start_date)"
  using assms
  by (cases start_date)
     (simp_all add: sorted_inventory_def quantities_fit_by_inventory_expiry_date
        quantities_fit_filter)

lemma sorted_sorted_inventory:
  "sorts sv \<Longrightarrow>
   sorted (map inventory_expiry_date (sorted_inventory sv product_inventory start_date))"
  by (simp add: sorted_inventory_def sorts_inventory)

lemma nonneg_demand_sorted_forecast:
  assumes "sorts sv" and "nonneg_demand product_forecast"
  shows "nonneg_demand (sorted_forecast sv product_forecast start_date)"
  using assms by (cases start_date) (simp_all add: sorted_forecast_def nonneg_demand_iff)

lemma spec_day_covered_0:
  "spec_day_covered (r # rest) batches 0 \<longleftrightarrow>
     forcast_forecasted_sales r \<le>
       sum_list (map inventory_inventory (surviving (forcast_date r) batches))"
  by (simp add: spec_day_covered_def)

lemma spec_day_covered_Suc:
  "spec_day_covered (r # rest) batches (Suc k) \<longleftrightarrow>
     spec_day_covered rest
       (spec_deplete (forcast_forecasted_sales r) (surviving (forcast_date r) batches)) k"
  by (simp add: spec_day_covered_def)

lemma spec_prefix_covered_iff:
  "spec_prefix_covered forecast batches n \<longleftrightarrow> (\<forall>k<n. spec_day_covered forecast batches k)"
  by (auto simp: spec_prefix_covered_def list_all_iff)

lemma spec_prefix_covered_Suc:
  "spec_prefix_covered (r # rest) batches (Suc n) \<longleftrightarrow>
     spec_day_covered (r # rest) batches 0 \<and>
     spec_prefix_covered rest
       (spec_deplete (forcast_forecasted_sales r) (surviving (forcast_date r) batches)) n"
  unfolding spec_prefix_covered_iff
  by (auto simp: less_Suc_eq_0_disj spec_day_covered_Suc)

lemma forecast_loop_longest_prefix:
  assumes "quantities_fit (st_product_inventory st)" and "nonneg_demand forecast"
  shows "\<exists>n. st_days_covered (forecast_loop forecast st) = st_days_covered st + n \<and>
             n \<le> length forecast \<and>
             spec_prefix_covered forecast (st_product_inventory st) n \<and>
             (n < length forecast \<longrightarrow> \<not> spec_day_covered forecast (st_product_inventory st) n)"
  using assms
proof (induction forecast arbitrary: st)
  case Nil
  then show ?case by (simp add: spec_prefix_covered_iff)
next
  case (Cons r rest)
  let ?stock = "surviving (forcast_date r) (st_product_inventory st)"
  let ?d = "forcast_forecasted_sales r"
  let ?total = "sum_list (map inventory_inventory ?stock)"
  have fit: "quantities_fit ?stock"
    using Cons.prems(1) by (rule quantities_fit_surviving)
  then have stock: "nonneg_quantities ?stock"
    by (simp add: quantities_fit_def)
  have remaining: "series_sum (map inventory_inventory ?stock) = ?total"
    using fit by (rule series_sum_fit)
  have d: "0 \<le> ?d" and rest: "nonneg_demand rest"
    using Cons.prems(2) by (simp_all add: nonneg_demand_def)
  show ?case
  proof (cases "?d \<le> ?total")
    case True
    let ?st' = "\<lparr>st_days_covered = st_days_covered st + 1,
                 st_remaining_inventory = ?total,
                 st_product_inventory = fifo_consumption ?d ?stock\<rparr>"
    have step: "forecast_step r st = (True, ?st')"
      using True by (simp add: forecast_step_eq Let_def remaining)
    have inv': "st_product_inventory ?st' = spec_deplete ?d ?stock"
      using stock by (simp add: fifo_consumption_spec_deplete)
    have "quantities_fit (st_product_inventory ?st')"
      using fit d by (simp add: quantities_fit_fifo_consumption)
    from Cons.IH [OF this rest] obtain n where
      n: "st_days_covered (forecast_loop rest ?st') = st_days_covered ?st' + n"
         "n \<le> length rest"
         "spec_prefix_covered rest (spec_deplete ?d ?stock) n"
         "n < length rest \<longrightarrow> \<not> spec_day_covered rest (spec_deplete ?d ?stock) n"
      unfolding inv' by blast
    show ?thesis
    proof (intro exI [where x = "Suc n"] conjI)
      show "st_days_covered (forecast_loop (r # rest) st) = st_days_covered st + Suc n"
        using step n(1) by simp
      show "Suc n \<le> length (r # rest)" using n(2) by simp
      show "spec_prefix_covered (r # rest) (st_product_inventory st) (Suc n)"
        using True n(3) by (simp add: spec_prefix_covered_Suc spec_day_covered_0)
      show "Suc n < length (r # rest) \<longrightarrow>
            \<not> spec_day_covered (r # rest) (st_product_inventory st) (Suc n)"
        using n(4) by (simp add: spec_day_covered_Suc)
    qed
  next
    case False
    then have "forecast_step r st =
        (False, \<lparr>st_days_covered = st_days_covered st,
                 st_remaining_inventory = ?total,
                 st_product_inventory = ?stock\<rparr>)"
      by (simp add: forecast_step_eq Let_def remaining)
    with False show ?thesis
      by (intro exI [where x = 0])
         (simp add: spec_prefix_covered_iff spec_day_covered_0)
  qed
qed

lemma set_filter_upto:
  "set (filter P [0..<Suc n]) = {m. m \<le> n \<and> P m}"
  by (auto simp del: upt_Suc simp: less_Suc_eq_le)

lemma spec_days_forward_coverage_eqI:
  assumes "n \<le> length forecast"
      and "spec_prefix_covered forecast batches n"
      and "n < length forecast \<longrightarrow> \<not> spec_day_covered forecast batches n"
  shows "spec_days_forward_coverage forecast batches = n"
  unfolding spec_days_forward_coverage_def
proof (rule Max_eqI)
  show "finite (set (filter (spec_prefix_covered forecast batches) [0..<Suc (length forecast)]))"
    by (rule finite_set)
  show "n \<in> set (filter (spec_prefix_covered forecast batches) [0..<Suc (length forecast)])"
    using assms(1,2) by (simp only: set_filter_upto mem_Collect_eq)
  fix m
  assume "m \<in> set (filter (spec_prefix_covered forecast batches) [0..<Suc (length forecast)])"
  then have m: "m \<le> length forecast" "spec_prefix_covered forecast batches m"
    by (simp_all only: set_filter_upto mem_Collect_eq)
  show "m \<le> n"
  proof (rule ccontr)
    assume "\<not> m \<le> n"
    then have "n < m" by simp
    with m have "n < length forecast" "spec_day_covered forecast batches n"
      by (auto simp: spec_prefix_covered_iff)
    with assms(3) show False by simp
  qed
qed

lemma spec_days_forward_coverage_Max:
  "spec_days_forward_coverage forecast batches =
     Max {n. n \<le> length forecast \<and> (\<forall>k<n. spec_day_covered forecast batches k)}"
proof -
  have "set (filter (spec_prefix_covered forecast batches) [0..<Suc (length forecast)]) =
        {n. n \<le> length forecast \<and> (\<forall>k<n. spec_day_covered forecast batches k)}"
    by (simp only: set_filter_upto spec_prefix_covered_iff)
  then show ?thesis by (simp only: spec_days_forward_coverage_def)
qed

lemma forecast_loop_spec:
  assumes "quantities_fit batches" and "nonneg_demand forecast"
  shows "st_days_covered (forecast_loop forecast (initial_state batches)) =
           spec_days_forward_coverage forecast batches \<and>
         spec_prefix_covered forecast batches (spec_days_forward_coverage forecast batches) \<and>
         (spec_days_forward_coverage forecast batches < length forecast \<longrightarrow>
          \<not> spec_day_covered forecast batches (spec_days_forward_coverage forecast batches))"
proof -
  have "quantities_fit (st_product_inventory (initial_state batches))"
    using assms(1) by (simp add: initial_state_def)
  from forecast_loop_longest_prefix [OF this assms(2)]
  obtain n where n: "st_days_covered (forecast_loop forecast (initial_state batches)) = n"
    "n \<le> length forecast" "spec_prefix_covered forecast batches n"
    "n < length forecast \<longrightarrow> \<not> spec_day_covered forecast batches n"
    by (auto simp: initial_state_def)
  then have "spec_days_forward_coverage forecast batches = n"
    by (simp add: spec_days_forward_coverage_eqI)
  with n show ?thesis by simp
qed

section \<open>Usable stock and the effect of removing a batch\<close>

lemma available_Nil [simp]: "available t [] = 0"
  by (simp add: available_def)

lemma available_Cons [simp]:
  "available t (b # batches) =
     (if t \<le> inventory_expiry_date b then inventory_inventory b else 0) + available t batches"
  by (simp add: available_def)

lemma available_le_total:
  "nonneg_quantities batches \<Longrightarrow> available t batches \<le> sum_list (map inventory_inventory batches)"
  by (induction batches) auto

lemma available_sorted_total:
  assumes "sorted (map inventory_expiry_date batches)"
      and "\<forall>b\<in>set batches. t \<le> inventory_expiry_date b"
  shows "available t batches = sum_list (map inventory_inventory batches)"
  using assms by (induction batches) auto

lemma available_surviving:
  "available t (surviving d batches) = available (max t d) batches"
  by (induction batches) (auto simp: surviving_def)

lemma total_surviving:
  "sum_list (map inventory_inventory (surviving d batches)) = available d batches"
  by (simp add: surviving_def available_def not_less)

lemma available_mset_cong: "mset xs = mset ys \<Longrightarrow> available t xs = available t ys"
  unfolding available_def by (rule sum_list_mset_cong) simp

lemma available_by_inventory_expiry_date:
  "sorts sv \<Longrightarrow> available t (by_inventory_expiry_date sv ys) = available t ys"
  by (rule available_mset_cong) (rule sorts_inventory)

lemma available_antimono:
  assumes "nonneg_quantities batches" and "t \<le> t'"
  shows "available t' batches \<le> available t batches"
  using assms by (induction batches) auto

lemma available_remove1:
  "nonneg_quantities batches \<Longrightarrow> available t (remove1 b batches) \<le> available t batches"
  by (induction batches) auto

lemma available_fifo_consumption:
  assumes "sorted (map inventory_expiry_date batches)" and "nonneg_quantities batches"
      and "0 \<le> d" and "d \<le> sum_list (map inventory_inventory batches)"
  shows "available t (fifo_consumption d batches) =
           min (available t batches) (sum_list (map inventory_inventory batches) - d)"
  using assms
proof (induction batches arbitrary: d)
  case Nil
  then show ?case by simp
next
  case (Cons b batches)
  have so: "sorted (map inventory_expiry_date batches)"
    and later: "\<forall>x\<in>set batches. inventory_expiry_date b \<le> inventory_expiry_date x"
    and nn: "nonneg_quantities batches" and q: "0 \<le> inventory_inventory b"
    using Cons.prems by auto
  have le: "available t batches \<le> sum_list (map inventory_inventory batches)"
    using nn by (rule available_le_total)
  have all: "available t batches = sum_list (map inventory_inventory batches)"
    if "t \<le> inventory_expiry_date b"
    using so later that by (intro available_sorted_total) auto
  show ?case
  proof (cases "d \<le> inventory_inventory b")
    case True
    with Cons.prems le all show ?thesis
      by (auto simp: Let_def min_def)
  next
    case False
    then have "available t (fifo_consumption (d - inventory_inventory b) batches) =
        min (available t batches)
            (sum_list (map inventory_inventory batches) - (d - inventory_inventory b))"
      using Cons.prems so nn by (intro Cons.IH) auto
    with False le all q Cons.prems(3) show ?thesis
      by (auto simp: Let_def min_def)
  qed
qed

lemma days_covered_forecast_loop_ge:
  "st_days_covered st \<le> st_days_covered (forecast_loop forecast st)"
proof (induction forecast arbitrary: st)
  case Nil
  then show ?case by simp
next
  case (Cons r rest)
  show ?case
  proof (cases "forcast_forecasted_sales r \<le>
      series_sum (map inventory_inventory (surviving (forcast_date r) (st_product_inventory st)))")
    case True
    then show ?thesis
      using Cons.IH [of "\<lparr>st_days_covered = st_days_covered st + 1,
          st_remaining_inventory =
            series_sum (map inventory_inventory (surviving (forcast_date r) (st_product_inventory st))),
          st_product_inventory =
            fifo_consumption (forcast_forecasted_sales r)
              (surviving (forcast_date r) (st_product_inventory st))\<rparr>"]
      by (simp add: forecast_step_eq Let_def)
  next
    case False
    then show ?thesis by (simp add: forecast_step_eq Let_def)
  qed
qed

text \<open>
  More usable stock at every date never gives fewer days: the stock of the primed state
  is dominated, date by date, by the stock of the other.
\<close>

lemma forecast_loop_mono:
  assumes "quantities_fit (st_product_inventory st)"
      and "quantities_fit (st_product_inventory st')"
      and "sorted (map inventory_expiry_date (st_product_inventory st))"
      and "sorted (map inventory_expiry_date (st_product_inventory st'))"
      and "nonneg_demand forecast"
      and "\<forall>t. available t (st_product_inventory st') \<le> available t (st_product_inventory st)"
      and "st_days_covered st' \<le> st_days_covered st"
  shows "st_days_covered (forecast_loop forecast st') \<le> st_days_covered (forecast_loop forecast st)"
  using assms
proof (induction forecast arbitrary: st st')
  case Nil
  then show ?case by simp
next
  case (Cons r rest)
  let ?d = "forcast_forecasted_sales r"
  let ?s = "surviving (forcast_date r) (st_product_inventory st)"
  let ?s' = "surviving (forcast_date r) (st_product_inventory st')"
  let ?tot = "sum_list (map inventory_inventory ?s)"
  let ?tot' = "sum_list (map inventory_inventory ?s')"
  have d: "0 \<le> ?d" and rest: "nonneg_demand rest"
    using Cons.prems(5) by (simp_all add: nonneg_demand_def)
  have tot: "?tot' \<le> ?tot"
    using Cons.prems(6) by (simp add: total_surviving)
  have dom: "available t ?s' \<le> available t ?s" for t
    using Cons.prems(6) by (simp add: available_surviving)
  have fit: "quantities_fit ?s" "quantities_fit ?s'"
    using Cons.prems(1,2) by (simp_all add: quantities_fit_surviving)
  then have nn: "nonneg_quantities ?s" "nonneg_quantities ?s'"
    by (simp_all add: quantities_fit_def)
  have rem: "series_sum (map inventory_inventory ?s) = ?tot"
    "series_sum (map inventory_inventory ?s') = ?tot'"
    using fit by (simp_all add: series_sum_fit)
  have so: "sorted (map inventory_expiry_date ?s)" "sorted (map inventory_expiry_date ?s')"
    using Cons.prems(3,4) by (simp_all add: sorted_surviving)
  show ?case
  proof (cases "?d \<le> ?tot'")
    case False
    then have "st_days_covered (forecast_loop (r # rest) st') = st_days_covered st'"
      by (simp add: forecast_step_eq Let_def rem)
    also have "\<dots> \<le> st_days_covered st" by (rule Cons.prems(7))
    also have "\<dots> \<le> st_days_covered (forecast_loop (r # rest) st)"
      by (rule days_covered_forecast_loop_ge)
    finally show ?thesis .
  next
    case True
    with tot have True2: "?d \<le> ?tot" by simp
    let ?n = "\<lparr>st_days_covered = st_days_covered st + 1, st_remaining_inventory = ?tot,
               st_product_inventory = fifo_consumption ?d ?s\<rparr>"
    let ?n' = "\<lparr>st_days_covered = st_days_covered st' + 1, st_remaining_inventory = ?tot',
               st_product_inventory = fifo_consumption ?d ?s'\<rparr>"
    have step: "forecast_loop (r # rest) st = forecast_loop rest ?n"
      "forecast_loop (r # rest) st' = forecast_loop rest ?n'"
      using True True2 by (simp_all add: forecast_step_eq Let_def rem)
    have "available t (fifo_consumption ?d ?s') \<le> available t (fifo_consumption ?d ?s)" for t
      using dom [of t] tot
      by (simp add: available_fifo_consumption [OF so(1) nn(1) d True2]
          available_fifo_consumption [OF so(2) nn(2) d True] min_def)
    then have "st_days_covered (forecast_loop rest ?n') \<le> st_days_covered (forecast_loop rest ?n)"
      using fit d so rest Cons.prems(7)
      by (intro Cons.IH) (simp_all add: quantities_fit_fifo_consumption)
    with step show ?thesis by simp
  qed
qed

text \<open>
  The order of the batches among those of equal expiry does not matter for the count: two
  ascending arrangements of the same batches give the same number of days.
\<close>

lemma forecast_loop_order_of_ties:
  assumes "mset batches' = mset batches" and "quantities_fit batches"
      and "sorted (map inventory_expiry_date batches)"
      and "sorted (map inventory_expiry_date batches')"
      and "nonneg_demand forecast"
  shows "st_days_covered (forecast_loop forecast (initial_state batches')) =
         st_days_covered (forecast_loop forecast (initial_state batches))"
proof -
  have fit': "quantities_fit batches'"
  proof -
    have "sum_list (map inventory_inventory batches') = sum_list (map inventory_inventory batches)"
      using assms(1) by (rule sum_list_mset_cong)
    moreover have "set batches' = set batches"
      using assms(1) by (metis set_mset_mset)
    ultimately show ?thesis
      using assms(2) by (simp add: quantities_fit_def nonneg_quantities_iff)
  qed
  have eq: "available t batches' = available t batches" for t
    using assms(1) by (rule available_mset_cong)
  have "st_days_covered (forecast_loop forecast (initial_state batches'))
          \<le> st_days_covered (forecast_loop forecast (initial_state batches))"
    using assms fit' by (intro forecast_loop_mono) (simp_all add: initial_state_def eq)
  moreover have "st_days_covered (forecast_loop forecast (initial_state batches))
          \<le> st_days_covered (forecast_loop forecast (initial_state batches'))"
    using assms fit' by (intro forecast_loop_mono) (simp_all add: initial_state_def eq)
  ultimately show ?thesis by simp
qed

lemma sorted_inventory_remove1:
  "sorted_inventory sv (remove1 b product_inventory) start_date =
     by_inventory_expiry_date sv
       (remove1 b (case start_date of None \<Rightarrow> product_inventory
                   | Some s \<Rightarrow> filter (\<lambda>b. inventory_expiry_date b \<ge> s) product_inventory))"
  by (cases start_date) (simp_all add: sorted_inventory_def filter_remove1)

lemma calculate_days_covered_remove1:
  assumes "sorts sv" and "quantities_fit product_inventory" and "nonneg_demand product_forecast"
  shows "fst (calculate_days_covered sv product_forecast (remove1 b product_inventory) start_date)
           \<le> fst (calculate_days_covered sv product_forecast product_inventory start_date)"
proof -
  let ?X = "case start_date of None \<Rightarrow> product_inventory
            | Some s \<Rightarrow> filter (\<lambda>b. inventory_expiry_date b \<ge> s) product_inventory"
  let ?inv = "sorted_inventory sv product_inventory start_date"
  let ?inv' = "sorted_inventory sv (remove1 b product_inventory) start_date"
  let ?fs = "sorted_forecast sv product_forecast start_date"
  have X: "nonneg_quantities ?X"
    using assms(2)
    by (cases start_date) (simp_all add: quantities_fit_def nonneg_quantities_filter)
  have inv: "?inv = by_inventory_expiry_date sv ?X"
    by (simp add: sorted_inventory_def)
  have inv': "?inv' = by_inventory_expiry_date sv (remove1 b ?X)"
    by (rule sorted_inventory_remove1)
  have fit: "quantities_fit ?inv"
    using assms(1,2) by (rule quantities_fit_sorted_inventory)
  have "quantities_fit (remove1 b product_inventory)"
    using assms(2) by (rule quantities_fit_remove1)
  with assms(1) have fit': "quantities_fit ?inv'"
    by (rule quantities_fit_sorted_inventory)
  have dom: "\<forall>t. available t ?inv' \<le> available t ?inv"
    unfolding inv inv'
    by (simp add: available_by_inventory_expiry_date [OF assms(1)] available_remove1 [OF X])
  show ?thesis
  proof (cases "?inv' = [] \<or> ?fs = []")
    case True
    then show ?thesis
      by (auto simp: calculate_days_covered_def Let_def)
  next
    case False
    then have "remove1 b ?X \<noteq> []" unfolding inv' using assms(1) by simp
    then have "?X \<noteq> []" by auto
    then have ne: "?inv \<noteq> []" unfolding inv using assms(1) by simp
    have "st_days_covered (forecast_loop ?fs (initial_state ?inv'))
            \<le> st_days_covered (forecast_loop ?fs (initial_state ?inv))"
      using fit fit' dom assms(1,3)
      by (intro forecast_loop_mono)
         (simp_all add: initial_state_def sorted_sorted_inventory nonneg_demand_sorted_forecast)
    with False ne show ?thesis
      by (simp add: calculate_days_covered_def Let_def)
  qed
qed

lemma product_result_remove1:
  assumes "sorts sv"
      and "quantities_fit (filter (\<lambda>b. inventory_product_id b = p) valid)"
      and "nonneg_demand (filter (\<lambda>r. forcast_product_id r = p) future)"
  shows "coverage_days_forward_coverage (product_result sv future (remove1 b valid) p)
           \<le> coverage_days_forward_coverage (product_result sv future valid p)"
proof -
  let ?pf = "filter (\<lambda>r. forcast_product_id r = p) future"
  let ?pi = "filter (\<lambda>b. inventory_product_id b = p) valid"
  have pi': "filter (\<lambda>b. inventory_product_id b = p) (remove1 b valid) = remove1 b ?pi"
    by (rule filter_remove1)
  have le: "fst (calculate_days_covered sv ?pf (remove1 b ?pi) None)
              \<le> fst (calculate_days_covered sv ?pf ?pi None)"
    using assms by (rule calculate_days_covered_remove1)
  have "remove1 b ?pi \<noteq> [] \<Longrightarrow> ?pi \<noteq> []" by auto
  with le show ?thesis
    by (auto simp: product_result_def Let_def pi' split_beta)
qed

section \<open>The store: what is kept, and the results computed\<close>

lemma tables_kept_refl [simp]: "tables_kept s s"
  by (simp add: tables_kept_def)

lemma tables_kept_new_forecast:
  "tables_kept s0 s \<Longrightarrow> tables_kept s0 (snd (new_forecast t s))"
  by (simp add: tables_kept_def new_forecast_def)

lemma tables_kept_new_inventory:
  "tables_kept s0 s \<Longrightarrow> tables_kept s0 (snd (new_inventory t s))"
  by (simp add: tables_kept_def new_inventory_def)

lemma fst_new_inventory [simp]: "fst (new_inventory t s) = length (inventories s)"
  by (simp add: new_inventory_def)

lemma fst_new_forecast [simp]: "fst (new_forecast t s) = length (forecasts s)"
  by (simp add: new_forecast_def)

lemmas alloc_defs =
  copy_forecast_def copy_inventory_def select_forecast_def select_inventory_def
  sort_forecast_def sort_inventory_def

lemma tables_kept_at_set_inventory:
  "tables_kept s0 s \<Longrightarrow> length (inventories s0) \<le> a \<Longrightarrow>
   tables_kept s0 (at_set_inventory a idx v s)"
  by (simp add: tables_kept_def at_set_inventory_def)

lemma tables_kept_assign_forecast_date:
  "tables_kept s0 s \<Longrightarrow> length (forecasts s0) \<le> a \<Longrightarrow>
   tables_kept s0 (assign_forecast_date a s)"
  by (simp add: tables_kept_def assign_forecast_date_def)

lemma tables_kept_assign_inventory_expiry_date:
  "tables_kept s0 s \<Longrightarrow> length (inventories s0) \<le> a \<Longrightarrow>
   tables_kept s0 (assign_inventory_expiry_date a s)"
  by (simp add: tables_kept_def assign_inventory_expiry_date_def)

text \<open>
  A write of the date column into a table that existed before, and whose dates are
  strings, is not covered by \<^const>\<open>tables_kept\<close>: the table is no longer the same.
\<close>

lemma assign_forecast_date_not_kept:
  assumes "a < length (forecasts s)"
      and "forecast_date_dtype (forecasts s ! a) = object_dtype"
  shows "\<not> tables_kept s (assign_forecast_date a s)"
proof
  assume "tables_kept s (assign_forecast_date a s)"
  then have "(forecasts s)[a := (forecasts s ! a)\<lparr>forecast_date_dtype := datetime64_dtype\<rparr>]
               = forecasts s"
    by (simp add: tables_kept_def assign_forecast_date_def)
  then have "((forecasts s)[a := (forecasts s ! a)\<lparr>forecast_date_dtype := datetime64_dtype\<rparr>]) ! a
               = forecasts s ! a"
    by simp
  then have "forecast_date_dtype ((forecasts s ! a)\<lparr>forecast_date_dtype := datetime64_dtype\<rparr>)
               = forecast_date_dtype (forecasts s ! a)"
    using assms(1) by simp
  with assms(2) show False by simp
qed

lemma assign_inventory_expiry_date_not_kept:
  assumes "a < length (inventories s)"
      and "inventory_expiry_date_dtype (inventories s ! a) = object_dtype"
  shows "\<not> tables_kept s (assign_inventory_expiry_date a s)"
proof
  assume "tables_kept s (assign_inventory_expiry_date a s)"
  then have "(inventories s)
               [a := (inventories s ! a)\<lparr>inventory_expiry_date_dtype := datetime64_dtype\<rparr>]
               = inventories s"
    by (simp add: tables_kept_def assign_inventory_expiry_date_def)
  then have "((inventories s)
               [a := (inventories s ! a)\<lparr>inventory_expiry_date_dtype := datetime64_dtype\<rparr>]) ! a
               = inventories s ! a"
    by simp
  then have "inventory_expiry_date_dtype
               ((inventories s ! a)\<lparr>inventory_expiry_date_dtype := datetime64_dtype\<rparr>)
               = inventory_expiry_date_dtype (inventories s ! a)"
    using assms(1) by simp
  with assms(2) show False by simp
qed

lemma tables_kept_fifo_consumption_on:
  "tables_kept s0 s \<Longrightarrow> length (inventories s0) \<le> a \<Longrightarrow>
   tables_kept s0 (fifo_consumption_on a idx d rows s)"
  by (induction rows arbitrary: idx d s) (simp_all add: Let_def tables_kept_at_set_inventory)

lemma tables_kept_length_inventories:
  "tables_kept s0 s \<Longrightarrow> length (inventories s0) \<le> length (inventories s)"
  by (simp add: tables_kept_def)

lemma tables_kept_length_forecasts:
  "tables_kept s0 s \<Longrightarrow> length (forecasts s0) \<le> length (forecasts s)"
  by (simp add: tables_kept_def)

lemma tables_kept_forecast_step_on:
  assumes "tables_kept s0 s"
  shows "tables_kept s0 (snd (forecast_step_on r st s))"
proof -
  let ?t = "(inventories s ! ref_product_inventory st)
      \<lparr>inventory_rows := filter (\<lambda>b. forcast_date r \<le> inventory_expiry_date b)
         (inventory_at s (ref_product_inventory st))\<rparr>"
  let ?s1 = "snd (new_inventory ?t s)"
  have k1: "tables_kept s0 ?s1"
    using assms by (rule tables_kept_new_inventory)
  have a: "length (inventories s0) \<le> length (inventories s)"
    using assms by (rule tables_kept_length_inventories)
  have "tables_kept s0 (fifo_consumption_on (length (inventories s)) 0 d rows ?s1)" for d rows
    using k1 a by (rule tables_kept_fifo_consumption_on)
  with k1 show ?thesis
    by (simp add: forecast_step_on_def Let_def split_beta select_inventory_def)
qed

lemma tables_kept_forecast_loop_on:
  "tables_kept s0 s \<Longrightarrow> tables_kept s0 (snd (forecast_loop_on forecast st s))"
proof (induction forecast arbitrary: st s)
  case Nil
  then show ?case by simp
next
  case (Cons r rest)
  have "tables_kept s0 (snd (forecast_step_on r st s))"
    using Cons.prems by (rule tables_kept_forecast_step_on)
  then show ?case
    using Cons.IH by (simp add: Let_def split_beta)
qed

lemma tables_kept_calculate_days_covered_on:
  assumes "tables_kept s0 s"
  shows "tables_kept s0 (snd (calculate_days_covered_on sv pf pi start_date s))"
  using assms
  by (cases start_date)
     (simp_all add: calculate_days_covered_on_def Let_def split_beta alloc_defs
        tables_kept_new_forecast tables_kept_new_inventory tables_kept_forecast_loop_on)

lemma tables_kept_product_result_on:
  assumes "tables_kept s0 s"
  shows "tables_kept s0 (snd (product_result_on sv future valid p s))"
  using assms
  by (simp add: product_result_on_def Let_def split_beta alloc_defs
      tables_kept_new_forecast tables_kept_new_inventory tables_kept_calculate_days_covered_on)

lemma tables_kept_products_loop_on:
  "tables_kept s0 s \<Longrightarrow> tables_kept s0 (snd (products_loop_on sv future valid ps s))"
  by (induction ps arbitrary: s)
     (simp_all add: Let_def split_beta tables_kept_product_result_on)

lemma tables_kept_calculate_dfc_on:
  "tables_kept s (snd (calculate_dfc_on sv forecast_df inventory_df current_date s))"
proof -
  have "tables_kept s s" by simp
  then show ?thesis
    unfolding calculate_dfc_on_def Let_def split_beta alloc_defs
    by (intro tables_kept_products_loop_on tables_kept_new_forecast tables_kept_new_inventory
        tables_kept_assign_inventory_expiry_date tables_kept_assign_forecast_date)
       (simp_all add: assign_forecast_date_def new_forecast_def new_inventory_def)
qed

lemma tables_kept_dates_loop_on:
  "tables_kept s0 s \<Longrightarrow> tables_kept s0 (snd (dates_loop_on sv pf pi ds s))"
  by (induction ds arbitrary: s)
     (simp_all add: Let_def split_beta tables_kept_calculate_days_covered_on)

lemma tables_kept_calculate_dfc_over_time_on:
  "tables_kept s (snd (calculate_dfc_over_time_on sv forecast_df inventory_df p s))"
proof -
  have "tables_kept s s" by simp
  then show ?thesis
    by (simp add: calculate_dfc_over_time_on_def Let_def split_beta alloc_defs
        tables_kept_dates_loop_on tables_kept_new_forecast tables_kept_new_inventory)
qed

lemma tables_kept_forecast_table:
  "tables_kept s s' \<Longrightarrow> a < length (forecasts s) \<Longrightarrow> forecasts s' ! a = forecasts s ! a"
  unfolding tables_kept_def by (metis nth_take)

lemma tables_kept_inventory_table:
  "tables_kept s s' \<Longrightarrow> a < length (inventories s) \<Longrightarrow> inventories s' ! a = inventories s ! a"
  unfolding tables_kept_def by (metis nth_take)

lemma tables_kept_forecast_at:
  "tables_kept s s' \<Longrightarrow> a < length (forecasts s) \<Longrightarrow> forecast_at s' a = forecast_at s a"
  by (simp add: forecast_at_def tables_kept_forecast_table)

lemma tables_kept_inventory_at:
  "tables_kept s s' \<Longrightarrow> a < length (inventories s) \<Longrightarrow> inventory_at s' a = inventory_at s a"
  by (simp add: inventory_at_def tables_kept_inventory_table)

lemma inventory_at_new_inventory:
  "a \<le> length (inventories s) \<Longrightarrow>
   inventory_at (snd (new_inventory t s)) a =
     (if a = length (inventories s) then inventory_rows t else inventory_at s a)"
  by (simp add: inventory_at_def new_inventory_def nth_append)

lemma forecast_at_new_forecast:
  "a \<le> length (forecasts s) \<Longrightarrow>
   forecast_at (snd (new_forecast t s)) a =
     (if a = length (forecasts s) then forecast_rows t else forecast_at s a)"
  by (simp add: forecast_at_def new_forecast_def nth_append)

lemma inventories_new_inventory_nth:
  "a \<le> length (inventories s) \<Longrightarrow>
   inventories (snd (new_inventory t s)) ! a =
     (if a = length (inventories s) then t else inventories s ! a)"
  by (simp add: new_inventory_def nth_append)

lemma forecasts_new_forecast_nth:
  "a \<le> length (forecasts s) \<Longrightarrow>
   forecasts (snd (new_forecast t s)) ! a =
     (if a = length (forecasts s) then t else forecasts s ! a)"
  by (simp add: new_forecast_def nth_append)

lemma inventory_at_new_forecast [simp]:
  "inventory_at (snd (new_forecast t s)) a = inventory_at s a"
  by (simp add: inventory_at_def new_forecast_def)

lemma forecast_at_new_inventory [simp]:
  "forecast_at (snd (new_inventory t s)) a = forecast_at s a"
  by (simp add: forecast_at_def new_inventory_def)

lemma inventories_new_forecast [simp]:
  "inventories (snd (new_forecast t s)) = inventories s"
  by (simp add: new_forecast_def)

lemma forecasts_new_inventory [simp]:
  "forecasts (snd (new_inventory t s)) = forecasts s"
  by (simp add: new_inventory_def)

lemma length_inventories_new_inventory [simp]:
  "length (inventories (snd (new_inventory t s))) = Suc (length (inventories s))"
  by (simp add: new_inventory_def)

lemma length_forecasts_new_forecast [simp]:
  "length (forecasts (snd (new_forecast t s))) = Suc (length (forecasts s))"
  by (simp add: new_forecast_def)

text \<open>The write of a date column changes the type of the column, not the dates.\<close>

lemma forecast_at_assign_forecast_date [simp]:
  "forecast_at (assign_forecast_date a s) b = forecast_at s b"
  by (cases "a < length (forecasts s)")
     (simp_all add: forecast_at_def assign_forecast_date_def nth_list_update not_less
        list_update_beyond)

lemma inventory_at_assign_forecast_date [simp]:
  "inventory_at (assign_forecast_date a s) b = inventory_at s b"
  by (simp add: inventory_at_def assign_forecast_date_def)

lemma inventory_at_assign_inventory_expiry_date [simp]:
  "inventory_at (assign_inventory_expiry_date a s) b = inventory_at s b"
  by (cases "a < length (inventories s)")
     (simp_all add: inventory_at_def assign_inventory_expiry_date_def nth_list_update not_less
        list_update_beyond)

lemma forecast_at_assign_inventory_expiry_date [simp]:
  "forecast_at (assign_inventory_expiry_date a s) b = forecast_at s b"
  by (simp add: forecast_at_def assign_inventory_expiry_date_def)

lemma forecasts_assign_forecast_date_nth:
  "forecast_rows (forecasts (assign_forecast_date a s) ! b) = forecast_rows (forecasts s ! b)"
  using forecast_at_assign_forecast_date [of a s b] by (simp add: forecast_at_def)

lemma inventories_assign_inventory_expiry_date_nth:
  "inventory_rows (inventories (assign_inventory_expiry_date a s) ! b) =
     inventory_rows (inventories s ! b)"
  using inventory_at_assign_inventory_expiry_date [of a s b] by (simp add: inventory_at_def)

lemma tables_assign [simp]:
  "inventories (assign_forecast_date a s) = inventories s"
  "forecasts (assign_inventory_expiry_date a s) = forecasts s"
  by (simp_all add: assign_forecast_date_def assign_inventory_expiry_date_def)

lemmas table_simps =
  forecast_at_def inventory_at_def inventories_new_inventory_nth forecasts_new_forecast_nth
  forecasts_assign_forecast_date_nth inventories_assign_inventory_expiry_date_nth

lemma length_assign [simp]:
  "length (forecasts (assign_forecast_date a s)) = length (forecasts s)"
  "length (inventories (assign_forecast_date a s)) = length (inventories s)"
  "length (forecasts (assign_inventory_expiry_date a s)) = length (forecasts s)"
  "length (inventories (assign_inventory_expiry_date a s)) = length (inventories s)"
  by (simp_all add: assign_forecast_date_def assign_inventory_expiry_date_def)

lemma at_set_inventory_eq:
  assumes "inventory_at s a = pre @ row # rest" and "length pre = idx"
  shows "at_set_inventory a idx v s =
           s\<lparr>inventories :=
               (inventories s)
                 [a := (inventories s ! a)
                         \<lparr>inventory_rows := pre @ row\<lparr>inventory_inventory := v\<rparr> # rest\<rparr>]\<rparr>"
  using assms by (simp add: at_set_inventory_def list_update_append nth_append)

lemma fifo_consumption_on_eq:
  assumes "a < length (inventories s)" and "inventory_at s a = pre @ rows"
      and "length pre = idx"
  shows "fifo_consumption_on a idx d rows s =
           s\<lparr>inventories :=
               (inventories s)
                 [a := (inventories s ! a)\<lparr>inventory_rows := pre @ fifo_consumption d rows\<rparr>]\<rparr>"
  using assms
proof (induction rows arbitrary: idx d s pre)
  case Nil
  then have "(inventories s ! a)\<lparr>inventory_rows := pre\<rparr> = inventories s ! a"
    by (simp add: inventory_at_def)
  then have "(inventories s)[a := (inventories s ! a)\<lparr>inventory_rows := pre\<rparr>] = inventories s"
    by (simp add: list_update_same_conv)
  then show ?case by simp
next
  case (Cons row rest)
  show ?case
  proof (cases "d \<le> inventory_inventory row")
    case True
    then show ?thesis
      using Cons.prems by (simp add: Let_def at_set_inventory_eq)
  next
    case False
    let ?row0 = "row\<lparr>inventory_inventory := 0\<rparr>"
    let ?s1 = "s\<lparr>inventories :=
                   (inventories s)
                     [a := (inventories s ! a)\<lparr>inventory_rows := pre @ ?row0 # rest\<rparr>]\<rparr>"
    have s1: "at_set_inventory a idx 0 s = ?s1"
      using Cons.prems by (simp add: at_set_inventory_eq)
    have "fifo_consumption_on a (Suc idx) (d - inventory_inventory row) rest ?s1 =
            ?s1\<lparr>inventories :=
                  (inventories ?s1)
                    [a := (inventories ?s1 ! a)
                            \<lparr>inventory_rows :=
                               (pre @ [?row0]) @
                               fifo_consumption (d - inventory_inventory row) rest\<rparr>]\<rparr>"
      using Cons.prems by (intro Cons.IH) (simp_all add: inventory_at_def)
    with False s1 Cons.prems(1) show ?thesis
      by (simp add: Let_def)
  qed
qed

lemma inventory_at_update:
  "a < length (inventories s) \<Longrightarrow>
   inventory_at (s\<lparr>inventories := (inventories s)[a := t]\<rparr>) a = inventory_rows t"
  by (simp add: inventory_at_def)

lemma forecast_step_on_eq:
  "forecast_step_on r st s =
     (let rows = filter (\<lambda>b. forcast_date r \<le> inventory_expiry_date b)
                   (inventory_at s (ref_product_inventory st));
          a = length (inventories s);
          s1 = snd (new_inventory
                 ((inventories s ! ref_product_inventory st)\<lparr>inventory_rows := rows\<rparr>) s);
          remaining = series_sum (map inventory_inventory rows)
      in if forcast_forecasted_sales r \<le> remaining
         then ((True, \<lparr>ref_days_covered = ref_days_covered st + 1,
                       ref_remaining_inventory = remaining, ref_product_inventory = a\<rparr>),
               s1\<lparr>inventories :=
                    (inventories s1)
                      [a := (inventories s1 ! a)
                              \<lparr>inventory_rows :=
                                 fifo_consumption (forcast_forecasted_sales r) rows\<rparr>]\<rparr>)
         else ((False, \<lparr>ref_days_covered = ref_days_covered st,
                        ref_remaining_inventory = remaining, ref_product_inventory = a\<rparr>),
               s1))"
proof -
  let ?rows = "filter (\<lambda>b. forcast_date r \<le> inventory_expiry_date b)
                 (inventory_at s (ref_product_inventory st))"
  let ?a = "length (inventories s)"
  let ?s1 = "snd (new_inventory
               ((inventories s ! ref_product_inventory st)\<lparr>inventory_rows := ?rows\<rparr>) s)"
  have at: "inventory_at ?s1 ?a = ?rows"
    by (simp add: inventory_at_new_inventory)
  have f: "fifo_consumption_on ?a 0 d ?rows ?s1 =
             ?s1\<lparr>inventories :=
                   (inventories ?s1)
                     [?a := (inventories ?s1 ! ?a)
                              \<lparr>inventory_rows := [] @ fifo_consumption d ?rows\<rparr>]\<rparr>" for d
    by (rule fifo_consumption_on_eq) (simp_all add: at)
  show ?thesis
    by (simp add: forecast_step_on_def Let_def split_beta select_inventory_def at f)
qed

lemma forecast_step_on_refines:
  "forecast_step r (abs_state s st) =
           (fst (fst (forecast_step_on r st s)),
            abs_state (snd (forecast_step_on r st s)) (snd (fst (forecast_step_on r st s))))"
  by (simp add: forecast_step_on_eq forecast_step_def Let_def abs_state_def
      inventory_at_update inventory_at_new_inventory)

lemma forecast_loop_on_refines:
  "abs_state (snd (forecast_loop_on forecast st s)) (fst (forecast_loop_on forecast st s)) =
     forecast_loop forecast (abs_state s st)"
proof (induction forecast arbitrary: st s)
  case Nil
  then show ?case by simp
next
  case (Cons r rest)
  show ?case
    using Cons.IH [of "snd (fst (forecast_step_on r st s))" "snd (forecast_step_on r st s)"]
    by (simp add: forecast_step_on_refines [of r s st] Let_def split_beta)
qed

lemma calculate_days_covered_on_refines:
  assumes "pf < length (forecasts s)" and "pi < length (inventories s)"
  shows "fst (calculate_days_covered_on sv pf pi start_date s) =
           calculate_days_covered sv (forecast_at s pf) (inventory_at s pi) start_date"
proof -
  have loop: "ref_days_covered (fst (forecast_loop_on fs st s')) =
        st_days_covered (forecast_loop fs (abs_state s' st))" for fs st s'
    using forecast_loop_on_refines [of fs st s', symmetric] by (simp add: abs_state_def)
  show ?thesis
    using assms
    by (cases start_date)
       (simp_all add: calculate_days_covered_on_def calculate_days_covered_def Let_def split_beta
          alloc_defs loop abs_state_def initial_state_def sorted_inventory_def sorted_forecast_def
          table_simps)
qed

lemma product_result_on_refines:
  assumes "future < length (forecasts s)" and "valid < length (inventories s)"
  shows "fst (product_result_on sv future valid p s) =
           product_result sv (forecast_at s future) (inventory_at s valid) p"
  using assms
  by (simp add: product_result_on_def product_result_def Let_def split_beta alloc_defs
      table_simps calculate_days_covered_on_refines [unfolded table_simps])

lemma products_loop_on_refines:
  assumes "future < length (forecasts s)" and "valid < length (inventories s)"
  shows "fst (products_loop_on sv future valid ps s) =
           map (product_result sv (forecast_at s future) (inventory_at s valid)) ps"
  using assms
proof (induction ps arbitrary: s)
  case Nil
  then show ?case by simp
next
  case (Cons p ps)
  let ?s1 = "snd (product_result_on sv future valid p s)"
  have kept: "tables_kept s ?s1"
    by (rule tables_kept_product_result_on) simp
  have same: "forecast_at ?s1 future = forecast_at s future"
    "inventory_at ?s1 valid = inventory_at s valid"
    using kept Cons.prems by (simp_all add: tables_kept_forecast_at tables_kept_inventory_at)
  have "future < length (forecasts ?s1)" "valid < length (inventories ?s1)"
    using kept Cons.prems
    by (auto dest: tables_kept_length_forecasts tables_kept_length_inventories)
  then have "fst (products_loop_on sv future valid ps ?s1) =
      map (product_result sv (forecast_at s future) (inventory_at s valid)) ps"
    using Cons.IH [of ?s1] by (simp add: same)
  then show ?case
    using Cons.prems by (simp add: Let_def split_beta product_result_on_refines)
qed

lemma calculate_dfc_on_refines:
  assumes "forecast_df < length (forecasts s)" and "inventory_df < length (inventories s)"
  shows "fst (calculate_dfc_on sv forecast_df inventory_df current_date s) =
           calculate_dfc sv (forecast_at s forecast_df) (inventory_at s inventory_df) current_date"
  using assms
  by (simp add: calculate_dfc_on_def calculate_dfc_def Let_def split_beta alloc_defs
      table_simps products_loop_on_refines [unfolded table_simps]
      valid_inventory_def future_forecast_def)

lemma dates_loop_on_refines:
  assumes "pf < length (forecasts s)" and "pi < length (inventories s)"
  shows "fst (dates_loop_on sv pf pi ds s) =
           map (\<lambda>current_date.
                  let (days_covered, total_inventory) =
                        calculate_days_covered sv (forecast_at s pf) (inventory_at s pi)
                          (Some current_date)
                  in \<lparr>date = current_date, days_forward_coverage = days_covered,
                      total_inventory = total_inventory\<rparr>) ds"
  using assms
proof (induction ds arbitrary: s)
  case Nil
  then show ?case by simp
next
  case (Cons d ds)
  let ?s1 = "snd (calculate_days_covered_on sv pf pi (Some d) s)"
  have kept: "tables_kept s ?s1"
    by (rule tables_kept_calculate_days_covered_on) simp
  have same: "forecast_at ?s1 pf = forecast_at s pf" "inventory_at ?s1 pi = inventory_at s pi"
    using kept Cons.prems by (simp_all add: tables_kept_forecast_at tables_kept_inventory_at)
  have "pf < length (forecasts ?s1)" "pi < length (inventories ?s1)"
    using kept Cons.prems
    by (auto dest: tables_kept_length_forecasts tables_kept_length_inventories)
  from Cons.IH [OF this] show ?case
    using Cons.prems by (simp add: Let_def split_beta same calculate_days_covered_on_refines)
qed

lemma calculate_dfc_over_time_on_refines:
  assumes "forecast_df < length (forecasts s)" and "inventory_df < length (inventories s)"
  shows "fst (calculate_dfc_over_time_on sv forecast_df inventory_df p s) =
           calculate_dfc_over_time sv (forecast_at s forecast_df) (inventory_at s inventory_df) p"
  using assms
  by (simp add: calculate_dfc_over_time_on_def calculate_dfc_over_time_def Let_def split_beta
      alloc_defs table_simps dates_loop_on_refines [unfolded table_simps])

section \<open>Scenario B\<close>

text \<open>
  Claim C2, as the code computes it. With the forecast of 5 units a day on 2024-01-01,
  2024-01-02 and 2024-01-03, one batch of 12 units that expires on 2024-01-02 and no
  reference date given, \<^verbatim>\<open>calculate_dfc\<close> returns one row with
  days_forward_coverage = 2 and total_inventory = 12, whatever the sort does with equal
  keys. The batch is kept on a forecast date equal to its expiry date (the test is
  \<^verbatim>\<open>expiry >= forecast_date\<close>), so the second day is covered from the 7 units left
  after the first; the batch is dropped on the third day only.
\<close>

theorem scenario_b_coverage:
  assumes "sorts sv"
  shows "calculate_dfc sv scenario_forecast scenario_b_inventory None =
     [\<lparr>coverage_product_id = ''P1'', coverage_days_forward_coverage = 2,
       coverage_total_inventory = 12, has_forecast = None\<rparr>]"
  by (simp add: scenario_forecast_def scenario_b_inventory_def dfc_eval_defs
      by_forcast_date_distinct [OF assms] by_inventory_expiry_date_distinct [OF assms])

theorem scenario_b_coverage_witness:
  "sorts stable_sort_values \<and>
   calculate_dfc stable_sort_values scenario_forecast scenario_b_inventory None =
     [\<lparr>coverage_product_id = ''P1'', coverage_days_forward_coverage = 2,
       coverage_total_inventory = 12, has_forecast = None\<rparr>]"
  using scenario_b_coverage [OF sorts_stable_sort_values] sorts_stable_sort_values
  by simp

text \<open>
  Claim C2 as the specification states it (days_forward_coverage = 1) does not hold of
  the code.
\<close>

theorem scenario_b_not_one_day:
  "map (\<lambda>r. (coverage_product_id r, coverage_days_forward_coverage r,
             coverage_total_inventory r))
     (calculate_dfc stable_sort_values scenario_forecast scenario_b_inventory None)
     \<noteq> [(''P1'', 1, 12)]"
  by (simp add: scenario_forecast_def scenario_b_inventory_def dfc_eval_defs
      stable_sort_values_def)

section \<open>The products of the coverage table\<close>

text \<open>
  Claim C3, as the code computes it. \<^verbatim>\<open>calculate_dfc\<close> emits exactly one row for every
  product id that occurs in a forecast record dated on or after the reference date or in a
  batch whose expiry date is on or after the reference date, and no row for any other
  product: the product ids of the rows are pairwise distinct, and their set is the union
  of the ids of the two filtered tables.
\<close>

theorem one_row_per_filtered_product:
  "distinct (map coverage_product_id (calculate_dfc sv forecast_df inventory_df current_date)) \<and>
   set (map coverage_product_id (calculate_dfc sv forecast_df inventory_df current_date)) =
     forcast_product_id `
       {r \<in> set forecast_df.
          ge_timestamp (forcast_date r) (resolve_current_date forecast_df current_date)} \<union>
     inventory_product_id `
       {b \<in> set inventory_df.
          ge_timestamp (inventory_expiry_date b)
            (resolve_current_date forecast_df current_date)}"
  unfolding map_id_calculate_dfc
  by (simp add: distinct_all_products set_all_products set_future_forecast set_valid_inventory)

text \<open>
  Claim C3 as the specification states it fails: product P2 occurs in the inventory input,
  its only batch expired before the reference date, and the coverage table has no row for
  it.
\<close>

theorem expired_only_product_has_no_row:
  "''P2'' \<in> inventory_product_id ` set expired_inventory \<and>
   ''P2'' \<notin> coverage_product_id `
     set (calculate_dfc stable_sort_values scenario_forecast expired_inventory None)"
  by (simp add: scenario_forecast_def expired_inventory_def dfc_eval_defs
      stable_sort_values_def)

section \<open>The default reference date\<close>

text \<open>
  Claim C4, as the code computes it. With the reference date omitted and a forecast
  without records, \<^verbatim>\<open>calculate_dfc\<close> returns the empty coverage table: the minimum of
  the empty date column is \<^verbatim>\<open>NaT\<close>, every comparison with it is false, both filtered
  tables are empty and the loop over the products has nothing to do. With the reference
  date omitted and a forecast with at least one record, the reference date is the minimum
  date of the forecast, and the result is the one computed for that date given explicitly.
\<close>

theorem default_reference_date:
  "calculate_dfc sv [] inventory_df None = [] \<and>
   (forecast_df \<noteq> [] \<longrightarrow>
      resolve_current_date forecast_df None = Some (Min (forcast_date ` set forecast_df)) \<and>
      calculate_dfc sv forecast_df inventory_df None =
        calculate_dfc sv forecast_df inventory_df (Some (Min (forcast_date ` set forecast_df))))"
  by (simp add: calculate_dfc_no_forecast resolve_default calculate_dfc_default)

theorem default_reference_date_witness:
  "scenario_forecast \<noteq> [] \<and>
   resolve_current_date scenario_forecast None = Some 19723 \<and>
   calculate_dfc stable_sort_values scenario_forecast scenario_b_inventory None =
     calculate_dfc stable_sort_values scenario_forecast scenario_b_inventory (Some 19723) \<and>
   calculate_dfc stable_sort_values [] scenario_b_inventory None = []"
  using default_reference_date [of stable_sort_values scenario_b_inventory scenario_forecast]
  by (simp add: scenario_forecast_def)

text \<open>
  Claim C4 as the specification states it fails: for a forecast without records and no
  reference date the code raises nothing and returns a result, the empty table.
\<close>

theorem no_forecast_returns_empty_table:
  "calculate_dfc stable_sort_values [] scenario_b_inventory None = []"
  by (simp add: scenario_b_inventory_def dfc_eval_defs)

section \<open>The total inventory is a snapshot\<close>

text \<open>
  Claim C5, as the code computes it. For a product with at least one forecast record and
  at least one batch after the reference-date filter (the products for which
  \<^verbatim>\<open>calculate_dfc\<close> runs the simulation), the table has a row, and its total_inventory
  is the \<^verbatim>\<open>int64\<close> sum of the quantities of the product's batches whose expiry date is
  on or after the reference date: their sum modulo \<open>2 ^ 64\<close>, read as a signed 64-bit
  integer. It is their sum when no quantity is negative and the sum is below \<open>2 ^ 63\<close>.
  Either way it is taken over the input quantities: the value does not mention the
  forecast, so neither what the simulation consumes nor the batches that expire during it
  change it.
\<close>

theorem total_inventory_is_snapshot:
  assumes "sorts sv"
      and "c = resolve_current_date forecast_df current_date"
      and "product_forecast_from forecast_df c p \<noteq> []"
      and "product_inventory_from inventory_df c p \<noteq> []"
  shows "\<exists>r. find (\<lambda>r. coverage_product_id r = p)
                (calculate_dfc sv forecast_df inventory_df current_date) = Some r \<and>
             coverage_total_inventory r =
               series_sum (map inventory_inventory (product_inventory_from inventory_df c p)) \<and>
             (quantities_fit (product_inventory_from inventory_df c p) \<longrightarrow>
              coverage_total_inventory r =
                sum_list (map inventory_inventory (product_inventory_from inventory_df c p)))"
  using assms by (simp add: find_calculate_dfc_simulated series_sum_fit)

theorem total_inventory_is_snapshot_witness:
  "sorts stable_sort_values \<and>
   Some 19723 = resolve_current_date scenario_forecast None \<and>
   product_forecast_from scenario_forecast (Some 19723) ''P1'' \<noteq> [] \<and>
   product_inventory_from scenario_b_inventory (Some 19723) ''P1'' \<noteq> [] \<and>
   quantities_fit (product_inventory_from scenario_b_inventory (Some 19723) ''P1'') \<and>
   (\<exists>r. find (\<lambda>r. coverage_product_id r = ''P1'')
          (calculate_dfc stable_sort_values scenario_forecast scenario_b_inventory None) = Some r \<and>
        coverage_total_inventory r = 12)"
  using total_inventory_is_snapshot
    [OF sorts_stable_sort_values, of "Some 19723" scenario_forecast None "''P1''"
      scenario_b_inventory]
    sorts_stable_sort_values
  by (auto simp add: scenario_forecast_def scenario_b_inventory_def resolve_current_date_def
      product_forecast_from_def product_inventory_from_def ge_timestamp_def
      quantities_fit_def nonneg_quantities_def)

text \<open>
  Claim C5 as the specification states it fails where the sum leaves the range of
  \<^verbatim>\<open>int64\<close>: for two batches of \<open>2 ^ 62\<close> units the quantities add up to \<open>2 ^ 63\<close>,
  and the row reports \<open>- 2 ^ 63\<close>.
\<close>

theorem total_inventory_wraps_around:
  "sum_list (map inventory_inventory (product_inventory_from huge_inventory (Some 19723) ''P1''))
     = 9223372036854775808 \<and>
   map coverage_total_inventory
     (calculate_dfc stable_sort_values scenario_forecast huge_inventory None)
     = [- 9223372036854775808]"
  by (simp add: scenario_forecast_def huge_inventory_def dfc_eval_defs stable_sort_values_def
      product_inventory_from_def)

section \<open>The time series\<close>

text \<open>
  Claim C9, as the code computes it. For a product with at least one forecast record and
  at least one inventory batch, \<^verbatim>\<open>calculate_dfc_over_time\<close> returns exactly one row
  for each distinct forecast date of the product, in ascending order of date, and the
  row's days_forward_coverage and total_inventory are the two results of the per-product
  simulation with that date as start date, run on the product's forecast sorted by date
  and the product's batches. For a product without forecast records or without batches
  the result is the empty table.
\<close>

theorem over_time_one_row_per_date:
  assumes "sorts sv"
  shows "calculate_dfc_over_time sv forecast_df inventory_df p =
     (if filter (\<lambda>r. forcast_product_id r = p) forecast_df = [] \<or>
         filter (\<lambda>b. inventory_product_id b = p) inventory_df = []
      then []
      else map (\<lambda>d. \<lparr>date = d,
                      days_forward_coverage =
                        fst (calculate_days_covered sv
                               (by_forcast_date sv
                                  (filter (\<lambda>r. forcast_product_id r = p) forecast_df))
                               (filter (\<lambda>b. inventory_product_id b = p) inventory_df) (Some d)),
                      total_inventory =
                        snd (calculate_days_covered sv
                               (by_forcast_date sv
                                  (filter (\<lambda>r. forcast_product_id r = p) forecast_df))
                               (filter (\<lambda>b. inventory_product_id b = p) inventory_df) (Some d))\<rparr>)
             (sorted_list_of_set
                (forcast_date ` set (filter (\<lambda>r. forcast_product_id r = p) forecast_df))))"
  by (simp add: calculate_dfc_over_time_rows [OF assms] Let_def)

theorem over_time_one_row_per_date_witness:
  "sorts stable_sort_values \<and>
   calculate_dfc_over_time stable_sort_values scenario_forecast two_batch_inventory ''P1'' =
     [\<lparr>date = 19723, days_forward_coverage = 3, total_inventory = 20\<rparr>,
      \<lparr>date = 19724, days_forward_coverage = 2, total_inventory = 20\<rparr>,
      \<lparr>date = 19725, days_forward_coverage = 1, total_inventory = 8\<rparr>]"
  using over_time_one_row_per_date
    [OF sorts_stable_sort_values, of scenario_forecast two_batch_inventory "''P1''"]
    sorts_stable_sort_values
  by (simp add: scenario_forecast_def two_batch_inventory_def calculate_dfc_over_time_def
      dfc_eval_defs stable_sort_values_def)

text \<open>
  Claim C9 as the specification states it fails: product P1 has forecast records on three
  distinct dates, the inventory has no batch of P1, and the time series has no row.
\<close>

theorem over_time_no_batches_no_rows:
  "map forcast_date (filter (\<lambda>r. forcast_product_id r = ''P1'') scenario_forecast) =
     [19723, 19724, 19725] \<and>
   calculate_dfc_over_time stable_sort_values scenario_forecast expired_inventory ''P1'' = []"
  by (simp add: scenario_forecast_def expired_inventory_def calculate_dfc_over_time_def)

text \<open>
  Claim C10, as the code computes it. For a product whose batches hold non-negative
  quantities that add up to less than \<open>2 ^ 63\<close>, the rows of
  \<^verbatim>\<open>calculate_dfc_over_time\<close> come in strictly increasing order of date, and along
  them total_inventory never increases: a later anchor date never reports a larger
  total_inventory than an earlier one.
\<close>

theorem over_time_total_inventory_non_increasing:
  assumes "sorts sv"
      and "quantities_fit (filter (\<lambda>b. inventory_product_id b = p) inventory_df)"
  shows "sorted_wrt (<) (map date (calculate_dfc_over_time sv forecast_df inventory_df p)) \<and>
         sorted_wrt (\<ge>)
           (map total_inventory (calculate_dfc_over_time sv forecast_df inventory_df p))"
proof -
  let ?pi = "filter (\<lambda>b. inventory_product_id b = p) inventory_df"
  let ?ds = "sorted_list_of_set
               (forcast_date ` set (filter (\<lambda>r. forcast_product_id r = p) forecast_df))"
  have nn: "nonneg_quantities ?pi"
    using assms(2) by (simp add: quantities_fit_def)
  have total: "snd (calculate_days_covered sv fc ?pi (Some d)) = available d ?pi" for fc d
  proof -
    have "quantities_fit (filter (\<lambda>b. d \<le> inventory_expiry_date b) ?pi)"
      using assms(2) by (rule quantities_fit_filter)
    then show ?thesis
      by (simp only: snd_calculate_days_covered [OF assms(1)] series_sum_fit available_def)
  qed
  have strict: "sorted_wrt (<) ?ds"
    by (simp add: strict_sorted_iff)
  then have "sorted_wrt (\<lambda>a b. available b ?pi \<le> available a ?pi) ?ds"
    by (rule sorted_wrt_mono_rel [rotated]) (simp add: available_antimono [OF nn])
  with strict show ?thesis
    by (simp add: calculate_dfc_over_time_rows [OF assms(1)] Let_def sorted_wrt_map total
        comp_def)
qed

theorem over_time_total_inventory_non_increasing_witness:
  "sorts stable_sort_values \<and>
   quantities_fit (filter (\<lambda>b. inventory_product_id b = ''P1'') two_batch_inventory) \<and>
   map date (calculate_dfc_over_time stable_sort_values scenario_forecast two_batch_inventory
     ''P1'') = [19723, 19724, 19725] \<and>
   map total_inventory (calculate_dfc_over_time stable_sort_values scenario_forecast
     two_batch_inventory ''P1'') = [20, 20, 8] \<and>
   sorted_wrt (\<ge>)
     (map total_inventory (calculate_dfc_over_time stable_sort_values scenario_forecast
        two_batch_inventory ''P1''))"
  using over_time_total_inventory_non_increasing
    [OF sorts_stable_sort_values, of "''P1''" two_batch_inventory scenario_forecast]
    sorts_stable_sort_values
  by (simp add: scenario_forecast_def two_batch_inventory_def nonneg_quantities_def
      quantities_fit_def calculate_dfc_over_time_def dfc_eval_defs stable_sort_values_def)

text \<open>
  Claim C10 as the specification states it fails where a sum leaves the range of
  \<^verbatim>\<open>int64\<close>: with two batches of \<open>2 ^ 62\<close> units, none negative, the first two
  anchor dates report \<open>- 2 ^ 63\<close> and the third, after the first batch has expired,
  reports \<open>2 ^ 62\<close>, which is larger.
\<close>

theorem over_time_total_inventory_increases:
  "nonneg_quantities huge_inventory \<and>
   map total_inventory
     (calculate_dfc_over_time stable_sort_values scenario_forecast huge_inventory ''P1'') =
     [- 9223372036854775808, - 9223372036854775808, 4611686018427387904]"
  by (simp add: scenario_forecast_def huge_inventory_def nonneg_quantities_def
      calculate_dfc_over_time_def dfc_eval_defs stable_sort_values_def)

section \<open>Quantities during the simulation\<close>



section \<open>Days forward coverage is the longest covered prefix\<close>

text \<open>
  Claim C1, as the code computes it. Take a product with at least one forecast record and
  at least one batch after the reference-date filter, whose forecast records bear
  pairwise distinct dates and no negative demand, and whose batches hold non-negative
  quantities that add up to less than \<open>2 ^ 63\<close>. The row's days_forward_coverage is the
  length of the longest prefix of the product's forecast records, sorted by date, every
  day of which can be met (\<^const>\<open>spec_days_forward_coverage\<close>, the maximum of the
  lengths \<open>n\<close> with \<^const>\<open>spec_day_covered\<close> for all \<open>k < n\<close>): a day can be met
  when, after the depletion in ascending order of expiry by all earlier records and the
  removal of the batches that expired strictly before its date, the remaining total is at
  least its demand. All days before the count can be met, and the day at the count, if
  there is one, cannot: the first day that cannot be met ends the count, whatever the
  later days. The order that the sort gives to batches of equal expiry does not matter.
  Lemma \<open>spec_days_forward_coverage_Max\<close> gives the count as the maximum of a set.
\<close>

theorem days_forward_coverage_longest_prefix:
  assumes "sorts sv"
      and "c = resolve_current_date forecast_df current_date"
      and "product_forecast_from forecast_df c p \<noteq> []"
      and "product_inventory_from inventory_df c p \<noteq> []"
      and "quantities_fit (product_inventory_from inventory_df c p)"
      and "nonneg_demand (product_forecast_from forecast_df c p)"
      and "distinct_dates (product_forecast_from forecast_df c p)"
  shows "\<exists>r. find (\<lambda>r. coverage_product_id r = p)
                (calculate_dfc sv forecast_df inventory_df current_date) = Some r \<and>
             coverage_days_forward_coverage r =
               spec_days_forward_coverage
                 (sort_key forcast_date (product_forecast_from forecast_df c p))
                 (sort_key inventory_expiry_date (product_inventory_from inventory_df c p)) \<and>
             spec_prefix_covered
               (sort_key forcast_date (product_forecast_from forecast_df c p))
               (sort_key inventory_expiry_date (product_inventory_from inventory_df c p))
               (coverage_days_forward_coverage r) \<and>
             (coverage_days_forward_coverage r
                < length (sort_key forcast_date (product_forecast_from forecast_df c p)) \<longrightarrow>
              \<not> spec_day_covered
                  (sort_key forcast_date (product_forecast_from forecast_df c p))
                  (sort_key inventory_expiry_date (product_inventory_from inventory_df c p))
                  (coverage_days_forward_coverage r))"
proof -
  let ?c = "resolve_current_date forecast_df current_date"
  let ?pf = "product_forecast_from forecast_df ?c p"
  let ?pi = "product_inventory_from inventory_df ?c p"
  let ?fs = "sort_key forcast_date ?pf"
  let ?bs = "sort_key inventory_expiry_date ?pi"
  note a = assms(3-7) [unfolded assms(2)]
  have "mset (map forcast_date ?fs) = mset (map forcast_date ?pf)"
    by simp
  then have "distinct (map forcast_date ?fs)"
    using a(5) unfolding distinct_dates_def by (metis mset_eq_imp_distinct_iff)
  with assms(1) have "by_forcast_date sv ?fs = sort_key forcast_date ?fs"
    by (rule by_forcast_date_distinct)
  then have fs: "by_forcast_date sv ?fs = ?fs"
    by (simp add: sort_key_id_if_sorted)
  have "sum_list (map inventory_inventory ?bs) = sum_list (map inventory_inventory ?pi)"
    by (rule sum_list_mset_cong) simp
  then have fit: "quantities_fit ?bs"
    using a(3) by (simp add: quantities_fit_def nonneg_quantities_iff)
  have nd: "nonneg_demand ?fs"
    using a(4) by (simp add: nonneg_demand_iff)
  have ties: "st_days_covered (forecast_loop ?fs (initial_state (by_inventory_expiry_date sv ?pi))) =
        st_days_covered (forecast_loop ?fs (initial_state ?bs))"
    using assms(1) fit nd
    by (intro forecast_loop_order_of_ties) (simp_all add: sorts_inventory)
  have row: "find (\<lambda>r. coverage_product_id r = p)
               (calculate_dfc sv forecast_df inventory_df current_date) =
     Some \<lparr>coverage_product_id = p,
       coverage_days_forward_coverage = st_days_covered (forecast_loop ?fs (initial_state ?bs)),
       coverage_total_inventory = series_sum (map inventory_inventory ?pi),
       has_forecast = None\<rparr>"
    by (simp only: find_calculate_dfc_simulated [OF assms(1) a(1) a(2)] fs ties)
  show ?thesis
    unfolding assms(2) row using forecast_loop_spec [OF fit nd] by simp
qed

theorem days_forward_coverage_longest_prefix_witness:
  "sorts stable_sort_values \<and>
   Some 19723 = resolve_current_date gap_forecast None \<and>
   product_forecast_from gap_forecast (Some 19723) ''P1'' \<noteq> [] \<and>
   product_inventory_from scenario_a_inventory (Some 19723) ''P1'' \<noteq> [] \<and>
   quantities_fit (product_inventory_from scenario_a_inventory (Some 19723) ''P1'') \<and>
   nonneg_demand (product_forecast_from gap_forecast (Some 19723) ''P1'') \<and>
   distinct_dates (product_forecast_from gap_forecast (Some 19723) ''P1'') \<and>
   (\<exists>r. find (\<lambda>r. coverage_product_id r = ''P1'')
          (calculate_dfc stable_sort_values gap_forecast scenario_a_inventory None) = Some r \<and>
        coverage_days_forward_coverage r = 1 \<and>
        spec_days_forward_coverage gap_forecast scenario_a_inventory = 1)"
proof -
  have h1: "Some 19723 = resolve_current_date gap_forecast None"
    by (simp add: gap_forecast_def resolve_current_date_def)
  have pf: "product_forecast_from gap_forecast (Some 19723) ''P1'' = gap_forecast"
    by (simp add: gap_forecast_def product_forecast_from_def ge_timestamp_def)
  have pi: "product_inventory_from scenario_a_inventory (Some 19723) ''P1'' = scenario_a_inventory"
    by (simp add: scenario_a_inventory_def product_inventory_from_def ge_timestamp_def)
  have h2: "product_forecast_from gap_forecast (Some 19723) ''P1'' \<noteq> []"
    unfolding pf by (simp add: gap_forecast_def)
  have h3: "product_inventory_from scenario_a_inventory (Some 19723) ''P1'' \<noteq> []"
    unfolding pi by (simp add: scenario_a_inventory_def)
  have h4: "quantities_fit (product_inventory_from scenario_a_inventory (Some 19723) ''P1'')"
    unfolding pi by (simp add: scenario_a_inventory_def quantities_fit_def nonneg_quantities_def)
  have h5: "nonneg_demand (product_forecast_from gap_forecast (Some 19723) ''P1'')"
    unfolding pf by (simp add: gap_forecast_def nonneg_demand_def)
  have h6: "distinct_dates (product_forecast_from gap_forecast (Some 19723) ''P1'')"
    unfolding pf by (simp add: gap_forecast_def distinct_dates_def)
  have sf: "sort_key forcast_date gap_forecast = gap_forecast"
    by (simp add: gap_forecast_def)
  have si: "sort_key inventory_expiry_date scenario_a_inventory = scenario_a_inventory"
    by (simp add: scenario_a_inventory_def)
  have tbl: "calculate_dfc stable_sort_values gap_forecast scenario_a_inventory None =
     [\<lparr>coverage_product_id = ''P1'', coverage_days_forward_coverage = 1,
       coverage_total_inventory = 12, has_forecast = None\<rparr>]"
    by (simp add: gap_forecast_def scenario_a_inventory_def dfc_eval_defs stable_sort_values_def)
  from days_forward_coverage_longest_prefix [OF sorts_stable_sort_values h1 h2 h3 h4 h5 h6]
  obtain r where r: "find (\<lambda>r. coverage_product_id r = ''P1'')
          (calculate_dfc stable_sort_values gap_forecast scenario_a_inventory None) = Some r"
     "coverage_days_forward_coverage r = spec_days_forward_coverage gap_forecast scenario_a_inventory"
    unfolding pf pi sf si by blast
  from r(1) have "coverage_days_forward_coverage r = 1"
    unfolding tbl by auto
  with r h1 h2 h3 h4 h5 h6 sorts_stable_sort_values show ?thesis by auto
qed

text \<open>
  Claim C1 as the specification states it fails where a sum leaves the range of
  \<^verbatim>\<open>int64\<close>: with two batches of \<open>2 ^ 62\<close> units and a demand of 5 units on each of
  three days, every day can be met, so the longest covered prefix has length 3; the code
  compares the first demand with the wrapped sum \<open>- 2 ^ 63\<close> and counts 0 days.
\<close>

theorem days_forward_coverage_wrapped_sum:
  "spec_days_forward_coverage
     (sort_key forcast_date (product_forecast_from scenario_forecast (Some 19723) ''P1''))
     (sort_key inventory_expiry_date (product_inventory_from huge_inventory (Some 19723) ''P1''))
     = 3 \<and>
   map coverage_days_forward_coverage
     (calculate_dfc stable_sort_values scenario_forecast huge_inventory None) = [0]"
proof -
  have "spec_days_forward_coverage
     (sort_key forcast_date (product_forecast_from scenario_forecast (Some 19723) ''P1''))
     (sort_key inventory_expiry_date (product_inventory_from huge_inventory (Some 19723) ''P1''))
     = 3"
    by code_simp
  moreover have "map coverage_days_forward_coverage
     (calculate_dfc stable_sort_values scenario_forecast huge_inventory None) = [0]"
    by (simp add: scenario_forecast_def huge_inventory_def dfc_eval_defs stable_sort_values_def)
  ultimately show ?thesis by simp
qed

section \<open>Monotonicity in the inventory\<close>

text \<open>
  Claim C6, as the code computes it. For a product whose forecast records hold no
  negative demand and whose batches hold non-negative quantities that add up to less than
  \<open>2 ^ 63\<close>, removing one batch from the inventory never increases the product's
  days_forward_coverage: if the product has a row in the table computed without the
  batch, it has a row in the table computed from the full inventory, and the
  days_forward_coverage of the former is at most that of the latter.
\<close>

theorem removing_a_batch_never_increases_coverage:
  assumes "sorts sv"
      and "c = resolve_current_date forecast_df current_date"
      and "quantities_fit (product_inventory_from inventory_df c p)"
      and "nonneg_demand (product_forecast_from forecast_df c p)"
      and "find (\<lambda>r. coverage_product_id r = p)
             (calculate_dfc sv forecast_df (remove1 b inventory_df) current_date) = Some r'"
  shows "\<exists>r. find (\<lambda>r. coverage_product_id r = p)
                (calculate_dfc sv forecast_df inventory_df current_date) = Some r \<and>
             coverage_days_forward_coverage r' \<le> coverage_days_forward_coverage r"
proof -
  let ?future = "future_forecast forecast_df c"
  let ?valid = "valid_inventory inventory_df c"
  have valid': "valid_inventory (remove1 b inventory_df) c = remove1 b ?valid"
    by (simp add: valid_inventory_def filter_remove1)
  have fit: "quantities_fit (filter (\<lambda>b. inventory_product_id b = p) ?valid)"
    using assms(3) by (simp add: filter_valid_inventory)
  have "nonneg_demand (sort_key forcast_date (product_forecast_from forecast_df c p))"
    using assms(4) by (simp add: nonneg_demand_iff)
  then have nd: "nonneg_demand (filter (\<lambda>r. forcast_product_id r = p) ?future)"
    by (simp add: filter_future_forecast)
  from assms(5) have p': "p \<in> set (all_products ?future (remove1 b ?valid))"
    and r': "r' = product_result sv ?future (remove1 b ?valid) p"
    by (auto simp: find_calculate_dfc Let_def valid' assms(2) [symmetric] split: if_splits)
  have "set (remove1 b ?valid) \<subseteq> set ?valid"
    by (rule set_remove1_subset)
  with p' have "p \<in> set (all_products ?future ?valid)"
    by (auto simp: set_all_products)
  then have "find (\<lambda>r. coverage_product_id r = p)
               (calculate_dfc sv forecast_df inventory_df current_date) =
             Some (product_result sv ?future ?valid p)"
    by (simp add: find_calculate_dfc Let_def assms(2) [symmetric])
  moreover have "coverage_days_forward_coverage r'
                   \<le> coverage_days_forward_coverage (product_result sv ?future ?valid p)"
    unfolding r' using assms(1) fit nd by (rule product_result_remove1)
  ultimately show ?thesis by simp
qed

theorem removing_a_batch_never_increases_coverage_witness:
  "sorts stable_sort_values \<and>
   Some 19723 = resolve_current_date scenario_forecast None \<and>
   quantities_fit (product_inventory_from two_batch_inventory (Some 19723) ''P1'') \<and>
   nonneg_demand (product_forecast_from scenario_forecast (Some 19723) ''P1'') \<and>
   map coverage_days_forward_coverage
     (calculate_dfc stable_sort_values scenario_forecast
        (remove1 (two_batch_inventory ! 1) two_batch_inventory) None) = [2] \<and>
   map coverage_days_forward_coverage
     (calculate_dfc stable_sort_values scenario_forecast two_batch_inventory None) = [3] \<and>
   (\<exists>r. find (\<lambda>r. coverage_product_id r = ''P1'')
          (calculate_dfc stable_sort_values scenario_forecast two_batch_inventory None) = Some r \<and>
        2 \<le> coverage_days_forward_coverage r)"
proof -
  have h1: "Some 19723 = resolve_current_date scenario_forecast None"
    by (simp add: scenario_forecast_def resolve_current_date_def)
  have h2: "quantities_fit (product_inventory_from two_batch_inventory (Some 19723) ''P1'')"
    by (simp add: two_batch_inventory_def product_inventory_from_def ge_timestamp_def
        quantities_fit_def nonneg_quantities_def)
  have h3: "nonneg_demand (product_forecast_from scenario_forecast (Some 19723) ''P1'')"
    by (simp add: scenario_forecast_def product_forecast_from_def ge_timestamp_def
        nonneg_demand_def)
  have less: "calculate_dfc stable_sort_values scenario_forecast
                (remove1 (two_batch_inventory ! 1) two_batch_inventory) None =
     [\<lparr>coverage_product_id = ''P1'', coverage_days_forward_coverage = 2,
       coverage_total_inventory = 12, has_forecast = None\<rparr>]"
    by (simp add: scenario_forecast_def two_batch_inventory_def dfc_eval_defs
        stable_sort_values_def)
  have full: "calculate_dfc stable_sort_values scenario_forecast two_batch_inventory None =
     [\<lparr>coverage_product_id = ''P1'', coverage_days_forward_coverage = 3,
       coverage_total_inventory = 20, has_forecast = None\<rparr>]"
    by (simp add: scenario_forecast_def two_batch_inventory_def dfc_eval_defs
        stable_sort_values_def)
  have h4: "find (\<lambda>r. coverage_product_id r = ''P1'')
              (calculate_dfc stable_sort_values scenario_forecast
                 (remove1 (two_batch_inventory ! 1) two_batch_inventory) None) =
            Some \<lparr>coverage_product_id = ''P1'', coverage_days_forward_coverage = 2,
                  coverage_total_inventory = 12, has_forecast = None\<rparr>"
    unfolding less by simp
  from removing_a_batch_never_increases_coverage [OF sorts_stable_sort_values h1 h2 h3 h4] have
    "\<exists>r. find (\<lambda>r. coverage_product_id r = ''P1'')
          (calculate_dfc stable_sort_values scenario_forecast two_batch_inventory None) = Some r \<and>
        2 \<le> coverage_days_forward_coverage r"
    by simp
  with h1 h2 h3 sorts_stable_sort_values show ?thesis
    unfolding less by (simp add: full)
qed

text \<open>
  Claim C6 as the specification states it fails where a sum leaves the range of
  \<^verbatim>\<open>int64\<close>: with two batches of \<open>2 ^ 62\<close> units, none negative, and a demand of 5
  units a day, the full inventory gives 0 days (the wrapped sum is negative), and the
  inventory without the first batch gives 3.
\<close>

theorem removing_a_batch_increases_coverage:
  "nonneg_quantities huge_inventory \<and> nonneg_demand scenario_forecast \<and>
   map coverage_days_forward_coverage
     (calculate_dfc stable_sort_values scenario_forecast huge_inventory None) = [0] \<and>
   map coverage_days_forward_coverage
     (calculate_dfc stable_sort_values scenario_forecast
        (remove1 (huge_inventory ! 0) huge_inventory) None) = [3]"
  by (simp add: scenario_forecast_def huge_inventory_def nonneg_quantities_def nonneg_demand_def
      dfc_eval_defs stable_sort_values_def)

section \<open>The caller's tables\<close>

text \<open>
  Claim C8. On the store, \<^verbatim>\<open>calculate_dfc\<close> and \<^verbatim>\<open>calculate_dfc_over_time\<close>
  leave every table that existed before the call as it was: the tables are still there
  with the same rows and the same column types (\<^const>\<open>tables_kept\<close>), in particular
  the forecast and the inventory table passed by the caller. Every write of the run goes
  to a table that the run itself allocated: the copies made on entry, whose date columns
  \<^verbatim>\<open>calculate_dfc\<close> replaces by timestamps, and in each product's simulation the
  filtered copy of the product's batches, whose quantities the inner loop overwrites. The
  same writes applied to a table of the caller would change it (lemmas
  \<open>assign_forecast_date_not_kept\<close> and \<open>assign_inventory_expiry_date_not_kept\<close>). The
  results of the run are those of the engine on lists, the one all other theorems are
  about.
\<close>

theorem engine_leaves_input_tables_unchanged:
  assumes "forecast_df < length (forecasts s)" and "inventory_df < length (inventories s)"
  shows "tables_kept s (snd (calculate_dfc_on sv forecast_df inventory_df current_date s)) \<and>
         forecasts (snd (calculate_dfc_on sv forecast_df inventory_df current_date s)) ! forecast_df
           = forecasts s ! forecast_df \<and>
         inventories (snd (calculate_dfc_on sv forecast_df inventory_df current_date s))
           ! inventory_df = inventories s ! inventory_df \<and>
         fst (calculate_dfc_on sv forecast_df inventory_df current_date s) =
           calculate_dfc sv (forecast_at s forecast_df) (inventory_at s inventory_df)
             current_date \<and>
         tables_kept s (snd (calculate_dfc_over_time_on sv forecast_df inventory_df product_id s)) \<and>
         forecasts (snd (calculate_dfc_over_time_on sv forecast_df inventory_df product_id s))
           ! forecast_df = forecasts s ! forecast_df \<and>
         inventories (snd (calculate_dfc_over_time_on sv forecast_df inventory_df product_id s))
           ! inventory_df = inventories s ! inventory_df \<and>
         fst (calculate_dfc_over_time_on sv forecast_df inventory_df product_id s) =
           calculate_dfc_over_time sv (forecast_at s forecast_df) (inventory_at s inventory_df)
             product_id"
  using assms
  by (simp add: tables_kept_calculate_dfc_on tables_kept_calculate_dfc_over_time_on
      tables_kept_forecast_table tables_kept_inventory_table calculate_dfc_on_refines
      calculate_dfc_over_time_on_refines)

theorem engine_leaves_input_tables_unchanged_witness:
  "0 < length (forecasts scenario_store) \<and> 0 < length (inventories scenario_store) \<and>
   forecasts (snd (calculate_dfc_on stable_sort_values 0 0 None scenario_store)) ! 0 =
     \<lparr>forecast_rows = scenario_forecast, forecast_date_dtype = object_dtype\<rparr> \<and>
   inventories (snd (calculate_dfc_on stable_sort_values 0 0 None scenario_store)) ! 0 =
     \<lparr>inventory_rows = scenario_b_inventory, inventory_expiry_date_dtype = object_dtype\<rparr> \<and>
   forecasts (snd (calculate_dfc_over_time_on stable_sort_values 0 0 ''P1'' scenario_store)) ! 0 =
     \<lparr>forecast_rows = scenario_forecast, forecast_date_dtype = object_dtype\<rparr> \<and>
   inventories (snd (calculate_dfc_over_time_on stable_sort_values 0 0 ''P1'' scenario_store)) ! 0 =
     \<lparr>inventory_rows = scenario_b_inventory, inventory_expiry_date_dtype = object_dtype\<rparr>"
  using engine_leaves_input_tables_unchanged [of 0 scenario_store 0 stable_sort_values None "''P1''"]
  by (simp add: scenario_store_def)

text \<open>
  The writes are real: in the run on scenario B the store ends with eleven inventory
  tables. The caller's, the first, still has its 12 units and its dates as strings; the
  copies made on entry have timestamps, and two of the simulation's own copies are
  depleted to 7 and to 2 units.
\<close>

lemma scenario_store_run:
  "map (\<lambda>t. (map inventory_inventory (inventory_rows t), inventory_expiry_date_dtype t))
     (inventories (snd (calculate_dfc_on stable_sort_values 0 0 None scenario_store))) =
     [([12], object_dtype), ([12], datetime64_dtype), ([12], datetime64_dtype),
      ([12], datetime64_dtype), ([12], datetime64_dtype), ([12], datetime64_dtype),
      ([12], datetime64_dtype), ([12], datetime64_dtype), ([7], datetime64_dtype),
      ([2], datetime64_dtype), ([], datetime64_dtype)]"
  by code_simp

end
